theory Spec2Isabelle
  imports Complex_Main "HOL-Library.Sublist" "HOL-Library.Char_ord" "HOL-Library.List_Lexorder"
begin

section \<open>Python values and strings\<close>

text \<open>
  The chunks, benefits and plan metadata of the repository are plain Python dicts with string
  keys. Their values are the scalars the pipeline produces: strings, integers, floats (the
  similarity score) and None. A dict is a partial map from keys to values.
  A string is the list of the bytes of its UTF-8 encoding, in which the keywords, all ASCII,
  occur exactly where they occur in the Python string.
\<close>

datatype pyval = PNone | PInt int | PFloat real | PStr string

type_synonym pydict = "string \<rightharpoonup> pyval"

datatype error =
    FileNotFoundError
  | FaissRuntimeError
  | UnpicklingError
  | ValueError
  | IndexError
  | KeyError
  | AttributeError
  | TypeError
  | EOFError

text \<open>\<^verbatim>\<open>kw in text\<close> on strings: \<open>kw\<close> occurs in \<open>text\<close> as a contiguous substring.\<close>

fun py_in :: "string \<Rightarrow> string \<Rightarrow> bool" where
  "py_in kw [] = (kw = [])"
| "py_in kw (c # cs) = (prefix kw (c # cs) \<or> py_in kw cs)"

section \<open>The category classifier (chunker.py)\<close>

text \<open>\<^verbatim>\<open>BenefitChunker.__init__\<close>: the categories, in the order the dict literal defines them.\<close>

definition categories :: "(string \<times> string list) list" where
  "categories =
    [(''preventive'', [''preventive'', ''screening'', ''wellness'', ''annual'', ''physical'', ''immunization'']),
     (''emergency'', [''emergency'', ''urgent'', ''ambulance'']),
     (''hospital'', [''hospital'', ''inpatient'', ''admission'', ''surgery'', ''outpatient'']),
     (''prescription'', [''prescription'', ''drug'', ''pharmacy'', ''medication'', ''tier'']),
     (''dental'', [''dental'', ''teeth'', ''cleaning'', ''orthodont'', ''crown'', ''filling'']),
     (''vision'', [''vision'', ''eye'', ''glasses'', ''contacts'', ''exam'', ''eyewear'']),
     (''mental_health'', [''mental'', ''therapy'', ''counseling'', ''behavioral'', ''psychiatrist'', ''psychologist'']),
     (''therapy'', [''physical therapy'', ''occupational'', ''speech'', ''rehabilitation'', ''cardiac'']),
     (''specialist'', [''specialist'', ''consultation'', ''referral'']),
     (''primary_care'', [''primary care'', ''pcp'', ''doctor visit'']),
     (''wellness'', [''gym'', ''fitness'', ''silversneakers'', ''wellness'', ''weight loss'']),
     (''telehealth'', [''telehealth'', ''virtual'', ''telemedicine'']),
     (''transportation'', [''transportation'', ''rides'', ''trip'']),
     (''hearing'', [''hearing'', ''hearing aid'', ''audiologist'']),
     (''home_health'', [''home health'', ''home care'', ''home support'']),
     (''meals'', [''meal'', ''food'', ''nutrition'']),
     (''otc'', [''over-the-counter'', ''otc''])]"

text \<open>\<^verbatim>\<open>sum(1 for kw in keywords if kw in text)\<close>\<close>

definition score :: "string list \<Rightarrow> string \<Rightarrow> nat" where
  "score keywords text = length (filter (\<lambda>kw. py_in kw text) keywords)"

text \<open>
  The \<^verbatim>\<open>scores\<close> dict of \<^verbatim>\<open>_classify\<close>: one entry per category with a positive score, in
  insertion order, which is the order of \<open>categories\<close>.
\<close>

definition scores :: "string \<Rightarrow> (string \<times> nat) list" where
  "scores text =
     filter (\<lambda>(category, s). 0 < s)
       (map (\<lambda>(category, keywords). (category, score keywords text)) categories)"

text \<open>
  \<^verbatim>\<open>max(scores, key=scores.get)\<close> on a non-empty dict: Python's max walks the keys in order
  and replaces its candidate only by a strictly larger one.
\<close>

fun max_from :: "string \<times> nat \<Rightarrow> (string \<times> nat) list \<Rightarrow> string \<times> nat" where
  "max_from best [] = best"
| "max_from best (x # xs) = max_from (if snd best < snd x then x else best) xs"

definition classify :: "string \<Rightarrow> string" where
  "classify text =
     (case scores text of
        [] \<Rightarrow> ''general''
      | first # rest \<Rightarrow> fst (max_from first rest))"

section \<open>Chunk creation (chunker.py)\<close>

text \<open>
  An f-string renders a string value as the string itself; for the other values it calls
  Python's \<^verbatim>\<open>format\<close>, which is taken as the parameter \<open>fmt\<close>.
\<close>

definition render :: "(pyval \<Rightarrow> string) \<Rightarrow> pyval \<Rightarrow> string" where
  "render fmt v = (case v of PStr s \<Rightarrow> s | _ \<Rightarrow> fmt v)"

text \<open>\<^verbatim>\<open>value == 0\<close>: true of the integer 0 and of the float 0.0.\<close>

definition is_zero :: "pyval \<Rightarrow> bool" where
  "is_zero v = (v = PInt 0 \<or> v = PFloat 0)"

text \<open>\<^verbatim>\<open>" ".join(parts)\<close>\<close>

fun join :: "string \<Rightarrow> string list \<Rightarrow> string" where
  "join sep [] = []"
| "join sep [x] = x"
| "join sep (x # y # ys) = x @ sep @ join sep (y # ys)"

text \<open>The text of the overview chunk, built part by part as \<^verbatim>\<open>_create_overview\<close> does.\<close>

definition overview_text :: "(pyval \<Rightarrow> string) \<Rightarrow> pydict \<Rightarrow> string" where
  "overview_text fmt metadata =
     (let plan = (case metadata ''plan_name'' of None \<Rightarrow> PStr ''This plan'' | Some v \<Rightarrow> v);
          provider = (case metadata ''provider'' of None \<Rightarrow> PStr [] | Some v \<Rightarrow> v);
          parts =
            [render fmt plan @ '' is offered by '' @ render fmt provider @ ''.'']
            @ (case metadata ''plan_type'' of
                 None \<Rightarrow> []
               | Some t \<Rightarrow> [''This is a '' @ render fmt t @ '' plan.''])
            @ (case metadata ''monthly_premium'' of
                 None \<Rightarrow> []
               | Some premium \<Rightarrow>
                   [if is_zero premium then ''This plan has no monthly premium ($0).''
                    else ''The monthly premium is $'' @ render fmt premium @ ''.''])
            @ (case metadata ''deductible'' of
                 None \<Rightarrow> []
               | Some deductible \<Rightarrow>
                   [if is_zero deductible then ''This plan has no deductible ($0).''
                    else ''The annual deductible is $'' @ render fmt deductible @ ''.''])
      in join '' '' parts)"

text \<open>
  \<^verbatim>\<open>_create_overview\<close>: the dict literal lists \<^verbatim>\<open>text\<close>, \<^verbatim>\<open>type\<close> and \<^verbatim>\<open>category\<close> first and
  unpacks \<^verbatim>\<open>**metadata\<close> last; a later key of a dict literal replaces an earlier one, which
  is the map sum \<open>++\<close>.
\<close>

definition create_overview :: "(pyval \<Rightarrow> string) \<Rightarrow> pydict \<Rightarrow> pydict" where
  "create_overview fmt metadata =
     [''text'' \<mapsto> PStr (overview_text fmt metadata),
      ''type'' \<mapsto> PStr ''overview'',
      ''category'' \<mapsto> PStr ''general''] ++ metadata"

text \<open>
  \<^verbatim>\<open>str.lower()\<close> is a built-in of Python, defined over all of Unicode; the chunker takes it
  as the parameter \<open>lower\<close>.

  The text of a benefit chunk; the plan context lower-cases the whole sentence.
\<close>

definition benefit_text ::
  "(pyval \<Rightarrow> string) \<Rightarrow> (string \<Rightarrow> string) \<Rightarrow> pydict \<Rightarrow> string \<Rightarrow> string \<Rightarrow> string"
where
  "benefit_text fmt lower metadata service description =
     (let text = ''For '' @ service @ '': '' @ description
      in case metadata ''plan_name'' of
           None \<Rightarrow> text
         | Some plan_name \<Rightarrow> ''Under the '' @ render fmt plan_name @ '', '' @ lower text)"

text \<open>
  \<^verbatim>\<open>_create_benefit_chunk\<close>: \<^verbatim>\<open>benefit['service']\<close> and \<^verbatim>\<open>benefit['description']\<close> raise
  KeyError on a missing key, and \<^verbatim>\<open>.lower()\<close> raises AttributeError on a value that is not a
  string. The classifier is called on the lower-cased service and description.
\<close>

definition create_benefit_chunk ::
  "(pyval \<Rightarrow> string) \<Rightarrow> (string \<Rightarrow> string) \<Rightarrow> pydict \<Rightarrow> pydict \<Rightarrow> error + pydict"
where
  "create_benefit_chunk fmt lower benefit metadata =
     (case benefit ''service'' of
        None \<Rightarrow> Inl KeyError
      | Some sv \<Rightarrow>
         (case benefit ''description'' of
            None \<Rightarrow> Inl KeyError
          | Some dv \<Rightarrow>
             (case sv of
                PStr service \<Rightarrow>
                  (case dv of
                     PStr description \<Rightarrow>
                       (let text = benefit_text fmt lower metadata service description;
                            category = classify (lower service @ '' '' @ lower description)
                        in Inr ([''text'' \<mapsto> PStr text,
                                 ''service'' \<mapsto> PStr service,
                                 ''description'' \<mapsto> PStr description,
                                 ''type'' \<mapsto> PStr ''benefit'',
                                 ''category'' \<mapsto> PStr category] ++ metadata))
                   | _ \<Rightarrow> Inl AttributeError)
              | _ \<Rightarrow> Inl AttributeError)))"

section \<open>The persisted unit (embedding_generator.py)\<close>

text \<open>
  FAISS and the sentence encoder are external. Of the index the model keeps what
  \<^verbatim>\<open>index.search(vector, k)\<close> answers for one query vector: the first row of distances and
  the first row of labels, zipped, or the exception FAISS raises.
\<close>

type_synonym embedding = "real list"

type_synonym candidates = "(real \<times> int) list"

type_synonym faiss_index = "embedding \<Rightarrow> int \<Rightarrow> error + candidates"

record ndarray =
  shape :: "nat list"
  data :: "real list"

text \<open>\<^verbatim>\<open>d.get(key, default)\<close>\<close>

definition dict_get :: "pydict \<Rightarrow> string \<Rightarrow> pyval \<Rightarrow> pyval" where
  "dict_get d key dflt = (case d key of None \<Rightarrow> dflt | Some v \<Rightarrow> v)"

text \<open>
  Python's \<^verbatim>\<open>==\<close> on values: an integer equals the float of the same value. The elements of
  \<^verbatim>\<open>set(xs)\<close> are the first occurrences of the values of \<open>xs\<close> up to \<^verbatim>\<open>==\<close>; the order in which
  a set lists them is not specified.
\<close>

definition py_eq :: "pyval \<Rightarrow> pyval \<Rightarrow> bool" where
  "py_eq a b =
     (case (a, b) of
        (PInt i, PFloat x) \<Rightarrow> real_of_int i = x
      | (PFloat x, PInt i) \<Rightarrow> x = real_of_int i
      | _ \<Rightarrow> a = b)"

definition py_set :: "pyval list \<Rightarrow> pyval list" where
  "py_set xs = foldl (\<lambda>seen x. if list_ex (\<lambda>y. py_eq y x) seen then seen else seen @ [x]) [] xs"

text \<open>
  \<^verbatim>\<open>metadata.json\<close>. The two lists come from \<^verbatim>\<open>list(set(...))\<close>, whose order is unspecified,
  so they are kept as sets.
\<close>

record metadata =
  total_chunks :: nat
  embedding_dimension :: nat
  model_name :: string
  index_type :: string
  plans :: "pyval set"
  categories_meta :: "pyval set"
  total_plans :: nat

definition summary :: "nat \<Rightarrow> pydict list \<Rightarrow> metadata" where
  "summary dimension chunks =
     \<lparr>total_chunks = length chunks,
      embedding_dimension = dimension,
      model_name = ''all-MiniLM-L6-v2'',
      index_type = ''HNSW'',
      plans = set (py_set (map (\<lambda>c. dict_get c ''plan_name'' (PStr ''Unknown'')) chunks)),
      categories_meta = set (py_set (map (\<lambda>c. dict_get c ''category'' (PStr ''unknown'')) chunks)),
      total_plans = length (py_set (map (\<lambda>c. dict_get c ''plan_name'' (PStr ''Unknown'')) chunks))\<rparr>"

text \<open>
  The file system: a directory path is absent or holds files by name. A file holds what was
  written to it: a serialized index, a pickled chunk list, a saved array or the JSON metadata.
  Every writer of \<^verbatim>\<open>save_all\<close> opens its file for writing, which empties the file, and only
  then writes the content: \<open>Truncated\<close> is the file in between, empty or cut short.
\<close>

datatype stored =
    IndexFile faiss_index
  | PickleFile "pydict list"
  | NpyFile ndarray
  | JsonFile metadata
  | Truncated

type_synonym directory = "string \<rightharpoonup> stored"

type_synonym filesystem = "string \<rightharpoonup> directory"

text \<open>The file under a name at a location, if the location and the file exist.\<close>

definition file_at :: "filesystem \<Rightarrow> string \<Rightarrow> string \<Rightarrow> stored option" where
  "file_at fs path name = (case fs path of None \<Rightarrow> None | Some d \<Rightarrow> d name)"

text \<open>\<^verbatim>\<open>output_path.mkdir(parents=True, exist_ok=True)\<close>\<close>

definition mkdir :: "string \<Rightarrow> filesystem \<Rightarrow> error + filesystem" where
  "mkdir path fs = (case fs path of None \<Rightarrow> Inr (fs(path \<mapsto> Map.empty)) | Some d \<Rightarrow> Inr fs)"

text \<open>
  Writing a file is two effects: opening it for writing replaces whatever the file held by the
  empty file, and the write that follows puts the content in place. Both fail in a directory
  that is absent.
\<close>

definition put_file :: "string \<Rightarrow> string \<Rightarrow> stored \<Rightarrow> filesystem \<Rightarrow> error + filesystem" where
  "put_file path name content fs =
     (case fs path of
        None \<Rightarrow> Inl FileNotFoundError
      | Some d \<Rightarrow> Inr (fs(path \<mapsto> d(name \<mapsto> content))))"

definition open_for_writing :: "string \<Rightarrow> string \<Rightarrow> filesystem \<Rightarrow> error + filesystem" where
  "open_for_writing path name fs = put_file path name Truncated fs"

definition write_content :: "string \<Rightarrow> string \<Rightarrow> stored \<Rightarrow> filesystem \<Rightarrow> error + filesystem" where
  "write_content path name content fs = put_file path name content fs"

text \<open>
  \<^verbatim>\<open>save_all\<close> is a sequence of nine effects on the file system, in this order: create the
  directory; open and write the index; open and write the chunks; open and write the
  embeddings; open and write the metadata computed from the chunks. \<open>dimension\<close> is
  \<^verbatim>\<open>self.dimension\<close>.
\<close>

definition save_steps ::
  "nat \<Rightarrow> faiss_index \<Rightarrow> pydict list \<Rightarrow> ndarray \<Rightarrow> string \<Rightarrow> (filesystem \<Rightarrow> error + filesystem) list"
where
  "save_steps dimension index chunks embeddings output_dir =
     [mkdir output_dir,
      open_for_writing output_dir ''benefits.index'',
      write_content output_dir ''benefits.index'' (IndexFile index),
      open_for_writing output_dir ''chunks.pkl'',
      write_content output_dir ''chunks.pkl'' (PickleFile chunks),
      open_for_writing output_dir ''embeddings.npy'',
      write_content output_dir ''embeddings.npy'' (NpyFile embeddings),
      open_for_writing output_dir ''metadata.json'',
      write_content output_dir ''metadata.json'' (JsonFile (summary dimension chunks))]"

fun run_steps :: "(filesystem \<Rightarrow> error + filesystem) list \<Rightarrow> filesystem \<Rightarrow> error + filesystem" where
  "run_steps [] fs = Inr fs"
| "run_steps (step # steps) fs =
     (case step fs of Inl e \<Rightarrow> Inl e | Inr fs' \<Rightarrow> run_steps steps fs')"

definition save_all ::
  "nat \<Rightarrow> faiss_index \<Rightarrow> pydict list \<Rightarrow> ndarray \<Rightarrow> string \<Rightarrow> filesystem \<Rightarrow> error + filesystem"
where
  "save_all dimension index chunks embeddings output_dir fs =
     run_steps (save_steps dimension index chunks embeddings output_dir) fs"

text \<open>
  The file system that is left behind when \<^verbatim>\<open>save_all\<close> is stopped, by an exception of a
  writer or the end of the process, after its first \<open>n\<close> effects: nothing in \<^verbatim>\<open>save_all\<close> undoes
  or defers an effect. A stop inside the write of a file is a stop after the file was opened
  and before its content is in place.
\<close>

definition save_all_interrupted ::
  "nat \<Rightarrow> nat \<Rightarrow> faiss_index \<Rightarrow> pydict list \<Rightarrow> ndarray \<Rightarrow> string \<Rightarrow> filesystem
     \<Rightarrow> error + filesystem"
where
  "save_all_interrupted n dimension index chunks embeddings output_dir fs =
     run_steps (take n (save_steps dimension index chunks embeddings output_dir)) fs"

text \<open>
  Reading back. \<^verbatim>\<open>faiss.read_index\<close> raises a RuntimeError on a file it cannot open or parse;
  \<^verbatim>\<open>open\<close> and \<^verbatim>\<open>np.load\<close> raise FileNotFoundError on a missing file, and \<^verbatim>\<open>pickle.load\<close>
  and \<^verbatim>\<open>np.load\<close> raise EOFError on a file that ends before its content does.
\<close>

definition read_index :: "filesystem \<Rightarrow> string \<Rightarrow> error + faiss_index" where
  "read_index fs path =
     (case fs path of
        None \<Rightarrow> Inl FaissRuntimeError
      | Some d \<Rightarrow>
         (case d ''benefits.index'' of
            Some (IndexFile i) \<Rightarrow> Inr i
          | _ \<Rightarrow> Inl FaissRuntimeError))"

definition read_chunks :: "filesystem \<Rightarrow> string \<Rightarrow> error + pydict list" where
  "read_chunks fs path =
     (case fs path of
        None \<Rightarrow> Inl FileNotFoundError
      | Some d \<Rightarrow>
         (case d ''chunks.pkl'' of
            None \<Rightarrow> Inl FileNotFoundError
          | Some (PickleFile cs) \<Rightarrow> Inr cs
          | Some Truncated \<Rightarrow> Inl EOFError
          | Some _ \<Rightarrow> Inl UnpicklingError))"

definition read_embeddings :: "filesystem \<Rightarrow> string \<Rightarrow> error + ndarray" where
  "read_embeddings fs path =
     (case fs path of
        None \<Rightarrow> Inl FileNotFoundError
      | Some d \<Rightarrow>
         (case d ''embeddings.npy'' of
            None \<Rightarrow> Inl FileNotFoundError
          | Some (NpyFile a) \<Rightarrow> Inr a
          | Some Truncated \<Rightarrow> Inl EOFError
          | Some _ \<Rightarrow> Inl ValueError))"

text \<open>\<^verbatim>\<open>load_all\<close> reads the index, the chunks and the embeddings; it never opens the metadata.\<close>

definition load_all :: "filesystem \<Rightarrow> string \<Rightarrow> error + (faiss_index \<times> pydict list \<times> ndarray)" where
  "load_all fs index_dir =
     (case read_index fs index_dir of
        Inl e \<Rightarrow> Inl e
      | Inr index \<Rightarrow>
         (case read_chunks fs index_dir of
            Inl e \<Rightarrow> Inl e
          | Inr chunks \<Rightarrow>
             (case read_embeddings fs index_dir of
                Inl e \<Rightarrow> Inl e
              | Inr embeddings \<Rightarrow> Inr (index, chunks, embeddings))))"

section \<open>The retriever (retriever.py)\<close>

text \<open>
  The state of a \<^verbatim>\<open>BenefitRetriever\<close>: the loaded index, the loaded chunks and the sentence
  encoder (\<^verbatim>\<open>self.model.encode\<close> on one query, external).
\<close>

record retriever =
  index :: faiss_index
  chunks :: "pydict list"
  model :: "string \<Rightarrow> embedding"

text \<open>
  \<^verbatim>\<open>__init__\<close>: FileNotFoundError when the directory does not exist; then the index and the
  chunks are read. The embeddings and the metadata are not opened.
\<close>

definition BenefitRetriever ::
  "(string \<Rightarrow> embedding) \<Rightarrow> filesystem \<Rightarrow> string \<Rightarrow> error + retriever"
where
  "BenefitRetriever encoder fs index_dir =
     (case fs index_dir of
        None \<Rightarrow> Inl FileNotFoundError
      | Some d \<Rightarrow>
         (case read_index fs index_dir of
            Inl e \<Rightarrow> Inl e
          | Inr i \<Rightarrow>
             (case read_chunks fs index_dir of
                Inl e \<Rightarrow> Inl e
              | Inr cs \<Rightarrow> Inr \<lparr>index = i, chunks = cs, model = encoder\<rparr>)))"

text \<open>
  \<^verbatim>\<open>self.chunks[idx]\<close>: positions 0 to len - 1 read the list from the front, positions
  -len to -1 read it from the back, and every other position raises IndexError.
\<close>

definition getitem :: "'a list \<Rightarrow> int \<Rightarrow> error + 'a" where
  "getitem xs i =
     (if 0 \<le> i \<and> i < int (length xs) then Inr (xs ! nat i)
      else if i < 0 \<and> - int (length xs) \<le> i then Inr (xs ! nat (int (length xs) + i))
      else Inl IndexError)"

text \<open>
  \<^verbatim>\<open>if plan_filter and chunk.get('plan_name') != plan_filter: continue\<close>. The filter is a
  string or None; None and the empty string are falsy. \<^verbatim>\<open>chunk.get(key)\<close> is None for a
  missing key, which differs from every string.
\<close>

definition filtered_out :: "string option \<Rightarrow> string \<Rightarrow> pydict \<Rightarrow> bool" where
  "filtered_out flt key chunk =
     (case flt of
        None \<Rightarrow> False
      | Some wanted \<Rightarrow> wanted \<noteq> [] \<and> chunk key \<noteq> Some (PStr wanted))"

text \<open>
  The three entries \<^verbatim>\<open>search\<close> adds to the copy of an accepted chunk. The distance is a
  float32 number and \<^verbatim>\<open>1 - distance\<close> is computed in float32 arithmetic, which rounds the
  exact difference; that operation is the parameter \<open>one_minus\<close>.
\<close>

definition annotate :: "(real \<Rightarrow> real) \<Rightarrow> pydict \<Rightarrow> nat \<Rightarrow> real \<Rightarrow> int \<Rightarrow> pydict" where
  "annotate one_minus chunk i distance idx =
     chunk(''similarity_score'' \<mapsto> PFloat (one_minus distance),
           ''rank'' \<mapsto> PInt (int i + 1),
           ''chunk_id'' \<mapsto> PInt idx)"

text \<open>
  The loop of \<^verbatim>\<open>search\<close> over \<^verbatim>\<open>enumerate(zip(distances[0], indices[0]))\<close>: \<open>i\<close> is the
  enumeration index of the next candidate and \<open>results\<close> the list built so far.
\<close>

fun collect ::
  "(real \<Rightarrow> real) \<Rightarrow> pydict list \<Rightarrow> int \<Rightarrow> string option \<Rightarrow> string option \<Rightarrow> nat \<Rightarrow> candidates \<Rightarrow> pydict list
     \<Rightarrow> error + pydict list"
where
  "collect one_minus cs top_k plan_filter category_filter i [] results = Inr results"
| "collect one_minus cs top_k plan_filter category_filter i ((distance, idx) # rest) results =
     (if idx = -1 then collect one_minus cs top_k plan_filter category_filter (i + 1) rest results
      else
        (case getitem cs idx of
           Inl e \<Rightarrow> Inl e
         | Inr chunk \<Rightarrow>
            (if filtered_out plan_filter ''plan_name'' chunk
             then collect one_minus cs top_k plan_filter category_filter (i + 1) rest results
             else if filtered_out category_filter ''category'' chunk
             then collect one_minus cs top_k plan_filter category_filter (i + 1) rest results
             else
               (let results' = results @ [annotate one_minus chunk i distance idx]
                in if top_k \<le> int (length results') then Inr results'
                   else collect one_minus cs top_k plan_filter category_filter (i + 1) rest results'))))"

definition search ::
  "(real \<Rightarrow> real) \<Rightarrow> retriever \<Rightarrow> string \<Rightarrow> int \<Rightarrow> string option \<Rightarrow> string option \<Rightarrow> error + pydict list"
where
  "search one_minus r query top_k plan_filter category_filter =
     (case index r (model r query) (min (top_k * 3) (int (length (chunks r)))) of
        Inl e \<Rightarrow> Inl e
      | Inr candidates \<Rightarrow> collect one_minus (chunks r) top_k plan_filter category_filter 0 candidates [])"

text \<open>\<^verbatim>\<open>search_with_context\<close>: the results grouped by plan, in order of first appearance.\<close>

fun group_append :: "pyval \<Rightarrow> pydict \<Rightarrow> (pyval \<times> pydict list) list \<Rightarrow> (pyval \<times> pydict list) list" where
  "group_append plan result [] = [(plan, [result])]"
| "group_append plan result ((p, rs) # groups) =
     (if py_eq p plan then (p, rs @ [result]) # groups
      else (p, rs) # group_append plan result groups)"

record context_result =
  query_of :: string
  total_results :: nat
  results_of :: "pydict list"
  by_plan :: "(pyval \<times> pydict list) list"
  plans_found :: "pyval list"

definition search_with_context :: "(real \<Rightarrow> real) \<Rightarrow> retriever \<Rightarrow> string \<Rightarrow> int \<Rightarrow> error + context_result" where
  "search_with_context one_minus r query top_k =
     (case search one_minus r query top_k None None of
        Inl e \<Rightarrow> Inl e
      | Inr results \<Rightarrow>
         (let groups =
                foldl (\<lambda>acc result.
                         group_append (dict_get result ''plan_name'' (PStr ''Unknown'')) result acc)
                  [] results
          in Inr \<lparr>query_of = query, total_results = length results, results_of = results,
                   by_plan = groups, plans_found = map fst groups\<rparr>))"

text \<open>
  \<^verbatim>\<open>compare_plans\<close>: one search per plan name with \<^verbatim>\<open>top_k=3\<close>; a later search under a name
  already present replaces the earlier entry.
\<close>

fun compare_loop ::
  "(real \<Rightarrow> real) \<Rightarrow> retriever \<Rightarrow> string \<Rightarrow> string list \<Rightarrow> (string \<rightharpoonup> pydict list) \<Rightarrow> error + (string \<rightharpoonup> pydict list)"
where
  "compare_loop one_minus r query [] comparison = Inr comparison"
| "compare_loop one_minus r query (plan_name # plan_names) comparison =
     (case search one_minus r query 3 (Some plan_name) None of
        Inl e \<Rightarrow> Inl e
      | Inr results \<Rightarrow> compare_loop one_minus r query plan_names (comparison(plan_name \<mapsto> results)))"

definition compare_plans ::
  "(real \<Rightarrow> real) \<Rightarrow> retriever \<Rightarrow> string \<Rightarrow> string list \<Rightarrow> error + (string \<times> (string \<rightharpoonup> pydict list))"
where
  "compare_plans one_minus r query plan_names =
     (case compare_loop one_minus r query plan_names Map.empty of
        Inl e \<Rightarrow> Inl e
      | Inr comparison \<Rightarrow> Inr (query, comparison))"

text \<open>\<^verbatim>\<open>get_plan_overview\<close>: the first overview chunk of the plan, or None.\<close>

definition get_plan_overview :: "retriever \<Rightarrow> string \<Rightarrow> pydict option" where
  "get_plan_overview r plan_name =
     find (\<lambda>chunk. chunk ''plan_name'' = Some (PStr plan_name)
                    \<and> chunk ''type'' = Some (PStr ''overview''))
       (chunks r)"

text \<open>
  \<^verbatim>\<open>sorted\<close> on the elements of a set: a list of at most one element needs no comparison;
  strings compare with strings and numbers with numbers; any other comparison raises
  TypeError.
\<close>

definition is_str :: "pyval \<Rightarrow> bool" where
  "is_str v = (case v of PStr s \<Rightarrow> True | _ \<Rightarrow> False)"

definition is_num :: "pyval \<Rightarrow> bool" where
  "is_num v = (case v of PInt i \<Rightarrow> True | PFloat x \<Rightarrow> True | _ \<Rightarrow> False)"

definition str_of :: "pyval \<Rightarrow> string" where
  "str_of v = (case v of PStr s \<Rightarrow> s | _ \<Rightarrow> [])"

definition num_of :: "pyval \<Rightarrow> real" where
  "num_of v = (case v of PInt i \<Rightarrow> real_of_int i | PFloat x \<Rightarrow> x | _ \<Rightarrow> 0)"

definition py_sorted :: "pyval list \<Rightarrow> error + pyval list" where
  "py_sorted xs =
     (if length xs \<le> 1 then Inr xs
      else if list_all is_str xs then Inr (map PStr (sort (map str_of xs)))
      else if list_all is_num xs then Inr (sort_key num_of xs)
      else Inl TypeError)"

text \<open>The values under \<open>key\<close> of the chunks that have the key, as \<^verbatim>\<open>list_plans\<close> collects them.\<close>

definition present :: "string \<Rightarrow> pydict list \<Rightarrow> pyval list" where
  "present key cs = concat (map (\<lambda>c. case c key of None \<Rightarrow> [] | Some v \<Rightarrow> [v]) cs)"

definition list_plans :: "retriever \<Rightarrow> error + pyval list" where
  "list_plans r = py_sorted (py_set (present ''plan_name'' (chunks r)))"

definition list_categories :: "retriever \<Rightarrow> error + pyval list" where
  "list_categories r = py_sorted (py_set (present ''category'' (chunks r)))"

text \<open>\<^verbatim>\<open>get_statistics\<close>: each count keeps one counter per key, by \<^verbatim>\<open>==\<close>.\<close>

fun count_up :: "pyval \<Rightarrow> (pyval \<times> nat) list \<Rightarrow> (pyval \<times> nat) list" where
  "count_up k [] = [(k, 1)]"
| "count_up k ((k', n) # counts) =
     (if py_eq k' k then (k', n + 1) # counts else (k', n) # count_up k counts)"

record statistics =
  stat_total_chunks :: nat
  stat_total_plans :: nat
  stat_plans :: "pyval list"
  stat_categories :: "pyval list"
  chunks_by_plan :: "(pyval \<times> nat) list"
  chunks_by_category :: "(pyval \<times> nat) list"

definition get_statistics :: "retriever \<Rightarrow> error + statistics" where
  "get_statistics r =
     (case list_plans r of
        Inl e \<Rightarrow> Inl e
      | Inr ps \<Rightarrow>
         (case list_categories r of
            Inl e \<Rightarrow> Inl e
          | Inr cats \<Rightarrow>
             Inr \<lparr>stat_total_chunks = length (chunks r),
                  stat_total_plans = length ps,
                  stat_plans = ps,
                  stat_categories = cats,
                  chunks_by_plan =
                    foldl (\<lambda>acc c. count_up (dict_get c ''plan_name'' (PStr ''Unknown'')) acc)
                      [] (chunks r),
                  chunks_by_category =
                    foldl (\<lambda>acc c. count_up (dict_get c ''category'' (PStr ''unknown'')) acc)
                      [] (chunks r)\<rparr>))"

section \<open>What the search loop computes\<close>

text \<open>
  The results the loop of \<^verbatim>\<open>search\<close> would append if \<^verbatim>\<open>top_k\<close> never stopped it: one
  annotated chunk for every candidate that is not the sentinel, names a chunk and passes both
  filters, in candidate order. It is a specification device, not code of the repository.
\<close>

fun accepted ::
  "(real \<Rightarrow> real) \<Rightarrow> pydict list \<Rightarrow> string option \<Rightarrow> string option \<Rightarrow> nat \<Rightarrow> candidates \<Rightarrow> pydict list"
where
  "accepted one_minus cs plan_filter category_filter i [] = []"
| "accepted one_minus cs plan_filter category_filter i ((distance, idx) # rest) =
     (if idx = -1 then accepted one_minus cs plan_filter category_filter (i + 1) rest
      else
        (case getitem cs idx of
           Inl e \<Rightarrow> accepted one_minus cs plan_filter category_filter (i + 1) rest
         | Inr chunk \<Rightarrow>
            (if filtered_out plan_filter ''plan_name'' chunk
                \<or> filtered_out category_filter ''category'' chunk
             then accepted one_minus cs plan_filter category_filter (i + 1) rest
             else annotate one_minus chunk i distance idx
                    # accepted one_minus cs plan_filter category_filter (i + 1) rest)))"

text \<open>The labels FAISS returns for an index over \<open>n\<close> vectors: the sentinel or a position.\<close>

definition valid_labels :: "nat \<Rightarrow> candidates \<Rightarrow> bool" where
  "valid_labels n candidates =
     list_all (\<lambda>(distance, idx). idx = -1 \<or> (0 \<le> idx \<and> idx < int n)) candidates"

text \<open>A result with its \<^verbatim>\<open>rank\<close> entry removed, to compare results up to their rank.\<close>

definition without_rank :: "pydict \<Rightarrow> pydict" where
  "without_rank r = r(''rank'' := None)"

section \<open>Concrete inputs\<close>

text \<open>Two chunks of two plans, and an index over their two vectors.\<close>

definition chunk_a :: pydict where
  "chunk_a = [''plan_name'' \<mapsto> PStr ''A'', ''category'' \<mapsto> PStr ''dental'']"

definition chunk_b :: pydict where
  "chunk_b = [''plan_name'' \<mapsto> PStr ''B'', ''category'' \<mapsto> PStr ''vision'']"

text \<open>
  The float32 difference on the distances used below: 1/8 and 3/8 are float32 numbers and so are
  7/8 and 5/8, so the difference is exact there.
\<close>

definition exact :: "real \<Rightarrow> real" where
  "exact d = 1 - d"

definition demo_index :: faiss_index where
  "demo_index v k =
     (if k = 2 then Inr [(1/8, 1), (3/8, 0)]
      else if k = 1 then Inr [(1/8, 1)]
      else Inl FaissRuntimeError)"

definition demo :: retriever where
  "demo = \<lparr>index = demo_index, chunks = [chunk_a, chunk_b], model = (\<lambda>q. [])\<rparr>"

text \<open>An index that holds one vector only and pads its answer with the sentinel.\<close>

definition sparse_index :: faiss_index where
  "sparse_index v k =
     (if k = 2 then Inr [(1/8, 0), (5, -1)] else Inl FaissRuntimeError)"

definition sparse :: retriever where
  "sparse = \<lparr>index = sparse_index, chunks = [chunk_a, chunk_b], model = (\<lambda>q. [])\<rparr>"

text \<open>A benefit, and plan metadata that carries a \<^verbatim>\<open>category\<close> key of its own.\<close>

definition gym_benefit :: pydict where
  "gym_benefit = [''service'' \<mapsto> PStr ''Gym Membership'', ''description'' \<mapsto> PStr ''Free'']"

definition tagged_metadata :: pydict where
  "tagged_metadata = [''plan_name'' \<mapsto> PStr ''Gold'', ''category'' \<mapsto> PStr ''custom'']"

definition no_format :: "pyval \<Rightarrow> string" where
  "no_format v = []"

text \<open>
  A lower-casing function for the concrete inputs: it maps the letters A-Z (codes 65 to 90)
  to a-z, which sets bit 5 of the code, and is \<^verbatim>\<open>str.lower()\<close> on the ASCII strings it is
  applied to below.
\<close>

definition ascii_lower_char :: "char \<Rightarrow> char" where
  "ascii_lower_char c =
     (if 65 \<le> (of_char c :: nat) \<and> (of_char c :: nat) \<le> 90
      then (case c of Char b0 b1 b2 b3 b4 b5 b6 b7 \<Rightarrow> Char b0 b1 b2 b3 b4 True b6 b7)
      else c)"

definition ascii_lower :: "string \<Rightarrow> string" where
  "ascii_lower s = map ascii_lower_char s"

definition plain_metadata :: pydict where
  "plain_metadata = [''plan_name'' \<mapsto> PStr ''Gold'']"

text \<open>
  A location that holds a complete unit of one chunk, and the same location after a second
  \<^verbatim>\<open>save_all\<close>, of a unit of two chunks, wrote its index file and was stopped.
\<close>

definition one_vector :: ndarray where
  "one_vector = \<lparr>shape = [1, 1], data = [1]\<rparr>"

definition two_vectors :: ndarray where
  "two_vectors = \<lparr>shape = [2, 1], data = [1, -1]\<rparr>"

definition old_directory :: directory where
  "old_directory =
     [''benefits.index'' \<mapsto> IndexFile sparse_index,
      ''chunks.pkl'' \<mapsto> PickleFile [chunk_a],
      ''embeddings.npy'' \<mapsto> NpyFile one_vector,
      ''metadata.json'' \<mapsto> JsonFile (summary 1 [chunk_a])]"

definition old_unit :: filesystem where
  "old_unit = [''data/index'' \<mapsto> old_directory]"

definition half_saved :: filesystem where
  "half_saved = [''data/index'' \<mapsto> old_directory(''benefits.index'' \<mapsto> IndexFile demo_index)]"

text \<open>
  A location with the three files \<^verbatim>\<open>load_all\<close> reads and no metadata file, and the retriever
  that \<^verbatim>\<open>__init__\<close> builds over the half-saved location.
\<close>

definition no_metadata_directory :: directory where
  "no_metadata_directory =
     [''benefits.index'' \<mapsto> IndexFile demo_index,
      ''chunks.pkl'' \<mapsto> PickleFile [chunk_a, chunk_b],
      ''embeddings.npy'' \<mapsto> NpyFile two_vectors]"

definition no_metadata :: filesystem where
  "no_metadata = [''data/index'' \<mapsto> no_metadata_directory]"

definition stale :: retriever where
  "stale = \<lparr>index = demo_index, chunks = [chunk_a], model = (\<lambda>q. [])\<rparr>"

section \<open>Lemmas on the classifier\<close>

lemma max_from_decomp:
  "\<exists>pre m post. best # xs = pre @ m # post \<and> max_from best xs = m
       \<and> (\<forall>p\<in>set pre. snd p < snd m) \<and> (\<forall>q\<in>set post. snd q \<le> snd m)"
proof (induction xs arbitrary: best)
  case Nil
  show ?case by (rule exI[of _ "[]"]) simp
next
  case (Cons x xs)
  show ?case
  proof (cases "snd best < snd x")
    case True
    then have step: "max_from best (x # xs) = max_from x xs" by simp
    from Cons.IH[of x] obtain pre m post where
      d: "x # xs = pre @ m # post" and mx: "max_from x xs = m"
      and lt: "\<forall>p\<in>set pre. snd p < snd m" and le: "\<forall>q\<in>set post. snd q \<le> snd m" by blast
    have "snd x \<le> snd m" using d lt by (cases pre) auto
    with True have b: "snd best < snd m" by simp
    have "best # x # xs = (best # pre) @ m # post" using d by simp
    moreover have "max_from best (x # xs) = m" using step mx by simp
    moreover have "\<forall>p\<in>set (best # pre). snd p < snd m" using b lt by simp
    ultimately show ?thesis using le by blast
  next
    case False
    then have step: "max_from best (x # xs) = max_from best xs" by simp
    from Cons.IH[of best] obtain pre m post where
      d: "best # xs = pre @ m # post" and mx: "max_from best xs = m"
      and lt: "\<forall>p\<in>set pre. snd p < snd m" and le: "\<forall>q\<in>set post. snd q \<le> snd m" by blast
    show ?thesis
    proof (cases pre)
      case Nil
      with d have m: "m = best" and p: "post = xs" by simp_all
      have "best # x # xs = [] @ m # (x # xs)" using m by simp
      moreover have "max_from best (x # xs) = m" using step mx by simp
      moreover have "\<forall>q\<in>set (x # xs). snd q \<le> snd m" using le p m False by auto
      ultimately show ?thesis by (metis empty_iff list.set(1))
    next
      case (Cons b pre')
      with d have b: "b = best" and xs: "xs = pre' @ m # post" by simp_all
      from lt Cons b have "snd best < snd m" by simp
      with False have xm: "snd x < snd m" by simp
      have "best # x # xs = (best # x # pre') @ m # post" using xs by simp
      moreover have "max_from best (x # xs) = m" using step mx by simp
      moreover have "\<forall>p\<in>set (best # x # pre'). snd p < snd m" using lt Cons b xm by simp
      ultimately show ?thesis using le by blast
    qed
  qed
qed

lemma filter_decomp:
  "filter P xs = pre' @ m # post' \<Longrightarrow>
     \<exists>pre post. xs = pre @ m # post \<and> filter P pre = pre' \<and> filter P post = post' \<and> P m"
proof (induction xs arbitrary: pre')
  case Nil
  then show ?case by simp
next
  case (Cons x xs)
  show ?case
  proof (cases "P x")
    case False
    with Cons.prems have "filter P xs = pre' @ m # post'" by simp
    from Cons.IH[OF this] obtain pre post where
      "xs = pre @ m # post" "filter P pre = pre'" "filter P post = post'" "P m" by blast
    with False have "x # xs = (x # pre) @ m # post \<and> filter P (x # pre) = pre'
        \<and> filter P post = post' \<and> P m" by simp
    then show ?thesis by blast
  next
    case True
    with Cons.prems have e: "x # filter P xs = pre' @ m # post'" by simp
    show ?thesis
    proof (cases pre')
      case Nil
      with e True have "x # xs = [] @ m # xs \<and> filter P [] = pre'
        \<and> filter P xs = post' \<and> P m" by simp
      then show ?thesis by blast
    next
      case (Cons a p'')
      with e have a: "a = x" and f: "filter P xs = p'' @ m # post'" by simp_all
      from Cons.IH[OF f] obtain pre post where
        "xs = pre @ m # post" "filter P pre = p''" "filter P post = post'" "P m" by blast
      with True Cons a have "x # xs = (x # pre) @ m # post \<and> filter P (x # pre) = pre'
        \<and> filter P post = post' \<and> P m" by simp
      then show ?thesis by blast
    qed
  qed
qed

lemma first_max:
  assumes "filter (\<lambda>(c, s). 0 < s) xs = f # r"
  shows "\<exists>pre post. xs = pre @ max_from f r # post
           \<and> (\<forall>p\<in>set pre. snd p < snd (max_from f r))
           \<and> (\<forall>q\<in>set post. snd q \<le> snd (max_from f r))
           \<and> 0 < snd (max_from f r)"
proof -
  let ?P = "\<lambda>(c :: string, s :: nat). 0 < s"
  from max_from_decomp[of f r] obtain pre' m post' where
    d: "f # r = pre' @ m # post'" and mx: "max_from f r = m"
    and lt: "\<forall>p\<in>set pre'. snd p < snd m" and le: "\<forall>q\<in>set post'. snd q \<le> snd m" by blast
  from assms d have "filter ?P xs = pre' @ m # post'" by simp
  from filter_decomp[OF this] obtain pre post where
    xs: "xs = pre @ m # post" and fp: "filter ?P pre = pre'" and fq: "filter ?P post = post'"
    and pm: "?P m" by blast
  have m0: "0 < snd m" using pm by (cases m) simp
  have "snd p < snd m" if "p \<in> set pre" for p
  proof (cases "?P p")
    case True
    with that fp have "p \<in> set pre'" by auto
    with lt show ?thesis by blast
  next
    case False
    then have "snd p = 0" by (cases p) simp
    with m0 show ?thesis by simp
  qed
  moreover have "snd q \<le> snd m" if "q \<in> set post" for q
  proof (cases "?P q")
    case True
    with that fq have "q \<in> set post'" by auto
    with le show ?thesis by blast
  next
    case False
    then have "snd q = 0" by (cases q) simp
    then show ?thesis by simp
  qed
  ultimately show ?thesis using xs mx m0 by blast
qed

lemma map_decomp:
  "map g xs = pre' @ m # post' \<Longrightarrow>
     \<exists>pre x post. xs = pre @ x # post \<and> map g pre = pre' \<and> g x = m \<and> map g post = post'"
  by (auto simp: map_eq_append_conv map_eq_Cons_conv)

lemma classify_general:
  assumes "\<forall>(c, kws)\<in>set categories. score kws text = 0"
  shows "classify text = ''general''"
proof -
  have "filter (\<lambda>(c, s). 0 < s) (map (\<lambda>(c, kws). (c, score kws text)) cs) = []"
    if "\<forall>(c, kws)\<in>set cs. score kws text = 0" for cs
    using that by (induction cs) auto
  from this[OF assms] show ?thesis by (simp add: classify_def scores_def)
qed

lemma classify_first_max_aux:
  assumes "\<exists>(c, kws)\<in>set categories. 0 < score kws text"
  shows "\<exists>pre kws post. categories = pre @ (classify text, kws) # post
            \<and> 0 < score kws text
            \<and> (\<forall>(c, k)\<in>set pre. score k text < score kws text)
            \<and> (\<forall>(c, k)\<in>set post. score k text \<le> score kws text)"
proof -
  let ?g = "\<lambda>(c :: string, kws). (c, score kws text)"
  from assms have "scores text \<noteq> []"
    by (force simp: scores_def filter_empty_conv)
  then obtain f r where fr: "scores text = f # r" by (cases "scores text") auto
  then have cl: "classify text = fst (max_from f r)" by (simp add: classify_def)
  from fr have "filter (\<lambda>(c, s). 0 < s) (map ?g categories) = f # r" by (simp add: scores_def)
  from first_max[OF this] obtain pre' post' where
    d: "map ?g categories = pre' @ max_from f r # post'"
    and lt: "\<forall>p\<in>set pre'. snd p < snd (max_from f r)"
    and le: "\<forall>q\<in>set post'. snd q \<le> snd (max_from f r)"
    and pos: "0 < snd (max_from f r)" by blast
  from map_decomp[OF d] obtain pre x post where
    c: "categories = pre @ x # post" and mp: "map ?g pre = pre'" and gx: "?g x = max_from f r"
    and mq: "map ?g post = post'" by blast
  obtain c kws where x: "x = (c, kws)" by (cases x)
  with gx have mfr: "max_from f r = (c, score kws text)" by simp
  with cl have c_eq: "c = classify text" and s_eq: "snd (max_from f r) = score kws text"
    by simp_all
  have "\<forall>(c, k)\<in>set pre. score k text < score kws text"
    using lt mp s_eq by force
  moreover have "\<forall>(c, k)\<in>set post. score k text \<le> score kws text"
    using le mq s_eq by force
  ultimately show ?thesis using c x c_eq pos s_eq by auto
qed

lemma py_in_sublist: "py_in kw t = sublist kw t"
  by (induction t) (auto simp: sublist_Cons_right)

lemma score_card:
  assumes "distinct kws"
  shows "score kws text = card {kw \<in> set kws. sublist kw text}"
proof -
  have "{kw \<in> set kws. sublist kw text} = {kw. py_in kw text} \<inter> set kws"
    by (auto simp: py_in_sublist)
  with distinct_length_filter[OF assms, of "\<lambda>kw. py_in kw text"] show ?thesis
    by (simp add: score_def)
qed

lemma categories_distinct: "\<forall>(c, kws)\<in>set categories. distinct kws"
  by (simp add: categories_def)

lemma categories_length: "length categories = 17"
  by (simp add: categories_def)

lemma gym_wellness:
  assumes "\<forall>kw\<in>set (concat (map snd categories)). py_in kw text = (kw = ''gym'' \<or> kw = ''wellness'')"
  shows "classify text = ''wellness''"
  using assms by (simp add: classify_def scores_def score_def categories_def)

lemma create_benefit_chunk_Inr:
  assumes "create_benefit_chunk fmt lower benefit metadata = Inr chunk"
  shows "\<exists>service description.
           benefit ''service'' = Some (PStr service)
         \<and> benefit ''description'' = Some (PStr description)
         \<and> chunk = [''text'' \<mapsto> PStr (benefit_text fmt lower metadata service description),
                     ''service'' \<mapsto> PStr service,
                     ''description'' \<mapsto> PStr description,
                     ''type'' \<mapsto> PStr ''benefit'',
                     ''category'' \<mapsto> PStr (classify (lower service @ '' '' @ lower description))]
                    ++ metadata"
  using assms
  by (auto simp: create_benefit_chunk_def Let_def split: option.splits pyval.splits)

section \<open>Lemmas on the search loop\<close>

lemma collect_prefix:
  "collect one_minus cs k pf cf i cands results = Inr rs \<Longrightarrow>
     \<exists>n. rs = results @ take n (accepted one_minus cs pf cf i cands)"
proof (induction cands arbitrary: i results)
  case Nil
  then show ?case by simp
next
  case (Cons c rest)
  obtain distance idx where c: "c = (distance, idx)" by (cases c)
  let ?skip = "idx = -1 \<or> (\<exists>chunk. getitem cs idx = Inr chunk
        \<and> (filtered_out pf ''plan_name'' chunk \<or> filtered_out cf ''category'' chunk))"
  show ?case
  proof (cases ?skip)
    case True
    then have "collect one_minus cs k pf cf i (c # rest) results = collect one_minus cs k pf cf (i + 1) rest results"
      and acc: "accepted one_minus cs pf cf i (c # rest) = accepted one_minus cs pf cf (i + 1) rest"
      unfolding c by auto
    with Cons.prems have "collect one_minus cs k pf cf (i + 1) rest results = Inr rs" by simp
    from Cons.IH[OF this] acc show ?thesis by simp
  next
    case False
    with Cons.prems obtain chunk where g: "getitem cs idx = Inr chunk"
      unfolding c by (cases "getitem cs idx") auto
    let ?a = "annotate one_minus chunk i distance idx"
    from False g have nz: "idx \<noteq> -1" and nf: "\<not> filtered_out pf ''plan_name'' chunk"
      "\<not> filtered_out cf ''category'' chunk" by auto
    have acc: "accepted one_minus cs pf cf i (c # rest) = ?a # accepted one_minus cs pf cf (i + 1) rest"
      unfolding c using nz g nf by simp
    show ?thesis
    proof (cases "k \<le> int (length (results @ [?a]))")
      case True
      with Cons.prems nz g nf have "rs = results @ [?a]" unfolding c by auto
      then have "rs = results @ take 1 (accepted one_minus cs pf cf i (c # rest))"
        using acc by simp
      then show ?thesis by blast
    next
      case stop: False
      with Cons.prems nz g nf
      have "collect one_minus cs k pf cf (i + 1) rest (results @ [?a]) = Inr rs" unfolding c by auto
      from Cons.IH[OF this]
      obtain n where "rs = (results @ [?a]) @ take n (accepted one_minus cs pf cf (i + 1) rest)"
        by auto
      then have "rs = results @ take (Suc n) (accepted one_minus cs pf cf i (c # rest))"
        using acc by simp
      then show ?thesis by blast
    qed
  qed
qed

lemma collect_length:
  "collect one_minus cs k pf cf i cands results = Inr rs \<Longrightarrow> int (length results) < k \<Longrightarrow>
     int (length rs) \<le> k"
  by (induction one_minus cs k pf cf i cands results rule: collect.induct)
     (auto split: if_splits sum.splits simp: Let_def)

lemma collect_char:
  "valid_labels (length cs) cands \<Longrightarrow>
     collect one_minus cs k pf cf i cands results
       = Inr (results @ take (max 1 (nat (k - int (length results)))) (accepted one_minus cs pf cf i cands))"
proof (induction cands arbitrary: i results)
  case Nil
  then show ?case by simp
next
  case (Cons c rest)
  obtain distance idx where c: "c = (distance, idx)" by (cases c)
  from Cons.prems have v: "valid_labels (length cs) rest"
    and l: "idx = -1 \<or> (0 \<le> idx \<and> idx < int (length cs))"
    by (auto simp: valid_labels_def c)
  note IH = Cons.IH[OF v]
  show ?case
  proof (cases "idx = -1")
    case True
    then show ?thesis unfolding c using IH by simp
  next
    case False
    with l have g: "getitem cs idx = Inr (cs ! nat idx)" by (simp add: getitem_def)
    show ?thesis
    proof (cases "filtered_out pf ''plan_name'' (cs ! nat idx)
                   \<or> filtered_out cf ''category'' (cs ! nat idx)")
      case True
      then show ?thesis unfolding c using IH False g by auto
    next
      case nf: False
      let ?a = "annotate one_minus (cs ! nat idx) i distance idx"
      show ?thesis
      proof (cases "k \<le> int (length results) + 1")
        case True
        then have "max 1 (nat (k - int (length results))) = 1" by simp
        with True show ?thesis unfolding c using False g nf by simp
      next
        case more: False
        then have "max 1 (nat (k - int (length results)))
                     = Suc (max 1 (nat (k - int (length (results @ [?a])))))"
          by simp
        with more show ?thesis unfolding c using False g nf IH[of "i + 1" "results @ [?a]"]
          by simp
      qed
    qed
  qed
qed

lemma annotate_other:
  "key \<noteq> ''similarity_score'' \<Longrightarrow> key \<noteq> ''rank'' \<Longrightarrow> key \<noteq> ''chunk_id'' \<Longrightarrow>
     annotate one_minus chunk i d idx key = chunk key"
  by (simp add: annotate_def)

lemma accepted_pass:
  "r \<in> set (accepted one_minus cs pf cf i cands) \<Longrightarrow>
     \<not> filtered_out pf ''plan_name'' r \<and> \<not> filtered_out cf ''category'' r"
proof (induction cands arbitrary: i)
  case Nil
  then show ?case by simp
next
  case (Cons c rest)
  obtain distance idx where c: "c = (distance, idx)" by (cases c)
  have keep: "filtered_out f key (annotate one_minus chunk j d l) = filtered_out f key chunk"
    if "key = ''plan_name'' \<or> key = ''category''" for f key chunk j d l
    using that by (auto simp: filtered_out_def annotate_def split: option.splits)
  from Cons.prems Cons.IH show ?case
    unfolding c by (auto split: if_splits sum.splits simp: keep)
qed

lemma accepted_scores:
  "sorted (map fst cands) \<Longrightarrow>
     \<exists>ds. sorted ds \<and> set ds \<subseteq> fst ` set cands
      \<and> map (\<lambda>r. r ''similarity_score'') (accepted one_minus cs pf cf i cands)
          = map (\<lambda>d. Some (PFloat (one_minus d))) ds"
proof (induction cands arbitrary: i)
  case Nil
  then show ?case by simp
next
  case (Cons c rest)
  obtain distance idx where c: "c = (distance, idx)" by (cases c)
  from Cons.prems have srt: "sorted (map fst rest)"
    and low: "\<forall>d\<in>fst ` set rest. distance \<le> d" by (auto simp: c)
  from Cons.IH[OF srt, of "i + 1"] obtain ds where
    ds: "sorted ds" "set ds \<subseteq> fst ` set rest"
        "map (\<lambda>r. r ''similarity_score'') (accepted one_minus cs pf cf (i + 1) rest)
           = map (\<lambda>d. Some (PFloat (one_minus d))) ds" by blast
  let ?skip = "idx = -1 \<or> (\<exists>e. getitem cs idx = Inl e) \<or> (\<exists>chunk. getitem cs idx = Inr chunk
        \<and> (filtered_out pf ''plan_name'' chunk \<or> filtered_out cf ''category'' chunk))"
  show ?case
  proof (cases ?skip)
    case True
    then have "accepted one_minus cs pf cf i (c # rest) = accepted one_minus cs pf cf (i + 1) rest"
      unfolding c by auto
    moreover have "set ds \<subseteq> fst ` set (c # rest)" using ds(2) by auto
    ultimately show ?thesis using ds(1,3) by metis
  next
    case False
    then obtain chunk where g: "getitem cs idx = Inr chunk"
      by (cases "getitem cs idx") auto
    with False have "accepted one_minus cs pf cf i (c # rest)
          = annotate one_minus chunk i distance idx # accepted one_minus cs pf cf (i + 1) rest"
      unfolding c by auto
    then have "map (\<lambda>r. r ''similarity_score'') (accepted one_minus cs pf cf i (c # rest))
          = map (\<lambda>d. Some (PFloat (one_minus d))) (distance # ds)"
      using ds(3) by (simp add: annotate_def)
    moreover have "sorted (distance # ds)" using ds(1,2) low by auto
    moreover have "set (distance # ds) \<subseteq> fst ` set (c # rest)" using ds(2) by (auto simp: c)
    ultimately show ?thesis by blast
  qed
qed

lemma scores_descending:
  assumes "sorted (ds :: real list)" and "antimono (f :: real \<Rightarrow> real)"
  shows "sorted_wrt (\<ge>) (map f (take n ds))"
proof -
  have "sorted_wrt (\<le>) (take n ds)" using assms(1) by (rule sorted_wrt_take)
  then have "sorted_wrt (\<lambda>a b. f b \<le> f a) (take n ds)"
    by (rule sorted_wrt_mono_rel[rotated]) (use assms(2) in \<open>simp add: antimonoD\<close>)
  then show ?thesis by (simp add: sorted_wrt_map)
qed

lemma accepted_ranks:
  "\<exists>js. sorted_wrt (<) js \<and> set js \<subseteq> {..<length cands}
      \<and> map (\<lambda>r. (r ''rank'', r ''chunk_id'', r ''similarity_score''))
            (accepted one_minus cs pf cf i cands)
          = map (\<lambda>j. (Some (PInt (int (i + j) + 1)), Some (PInt (snd (cands ! j))),
                        Some (PFloat (one_minus (fst (cands ! j)))))) js"
proof (induction cands arbitrary: i)
  case Nil
  show ?case by (rule exI[of _ "[]"]) simp
next
  case (Cons c rest)
  obtain distance idx where c: "c = (distance, idx)" by (cases c)
  let ?f = "\<lambda>r :: pydict. (r ''rank'', r ''chunk_id'', r ''similarity_score'')"
  let ?g = "\<lambda>i cands j. (Some (PInt (int (i + j) + 1)), Some (PInt (snd (cands ! j))),
                        Some (PFloat (one_minus (fst (cands ! j)))))"
  from Cons.IH[of "i + 1"] obtain js where
    js: "sorted_wrt (<) js" "set js \<subseteq> {..<length rest}"
        "map ?f (accepted one_minus cs pf cf (i + 1) rest) = map (?g (i + 1) rest) js" by blast
  have shift: "map (?g (i + 1) rest) js = map (?g i (c # rest)) (map Suc js)"
    by simp
  have s1: "sorted_wrt (<) (map Suc js)" using js(1) by (simp add: sorted_wrt_map)
  have s2: "set (map Suc js) \<subseteq> {..<length (c # rest)}" using js(2) by auto
  let ?skip = "idx = -1 \<or> (\<exists>e. getitem cs idx = Inl e) \<or> (\<exists>chunk. getitem cs idx = Inr chunk
        \<and> (filtered_out pf ''plan_name'' chunk \<or> filtered_out cf ''category'' chunk))"
  show ?case
  proof (cases ?skip)
    case True
    then have "accepted one_minus cs pf cf i (c # rest) = accepted one_minus cs pf cf (i + 1) rest"
      unfolding c by auto
    with js(3) shift have "map ?f (accepted one_minus cs pf cf i (c # rest))
        = map (?g i (c # rest)) (map Suc js)" by simp
    with s1 s2 show ?thesis by blast
  next
    case False
    then obtain chunk where g: "getitem cs idx = Inr chunk"
      by (cases "getitem cs idx") auto
    with False have "accepted one_minus cs pf cf i (c # rest)
          = annotate one_minus chunk i distance idx # accepted one_minus cs pf cf (i + 1) rest"
      unfolding c by auto
    with js(3) shift have "map ?f (accepted one_minus cs pf cf i (c # rest))
        = map (?g i (c # rest)) (0 # map Suc js)" by (simp add: annotate_def c)
    moreover have "sorted_wrt (<) (0 # map Suc js)" using s1 by auto
    moreover have "set (0 # map Suc js) \<subseteq> {..<length (c # rest)}" using s2 by auto
    ultimately show ?thesis by blast
  qed
qed

lemma accepted_sentinel:
  "map without_rank (accepted one_minus cs pf cf i (filter (\<lambda>(d, l). l \<noteq> -1) cands))
     = map without_rank (accepted one_minus cs pf cf j cands)"
proof (induction cands arbitrary: i j)
  case Nil
  show ?case by simp
next
  case (Cons c rest)
  obtain distance idx where c: "c = (distance, idx)" by (cases c)
  have w: "without_rank (annotate one_minus chunk i d l) = without_rank (annotate one_minus chunk j d l)"
    for chunk d l by (auto simp: without_rank_def annotate_def)
  show ?case unfolding c using Cons.IH[of "i + 1" "j + 1"] Cons.IH[of i "j + 1"]
    by (auto split: sum.splits simp: w)
qed

lemma collect_empty_plan_filter:
  "collect one_minus cs k (Some []) cf i cands results = collect one_minus cs k None cf i cands results"
proof (induction cands arbitrary: i results)
  case Nil
  show ?case by simp
next
  case (Cons c rest)
  obtain distance idx where c: "c = (distance, idx)" by (cases c)
  show ?case unfolding c by (simp add: filtered_out_def Cons.IH Let_def split: sum.splits)
qed

lemma collect_empty_category_filter:
  "collect one_minus cs k pf (Some []) i cands results = collect one_minus cs k pf None i cands results"
proof (induction cands arbitrary: i results)
  case Nil
  show ?case by simp
next
  case (Cons c rest)
  obtain distance idx where c: "c = (distance, idx)" by (cases c)
  show ?case unfolding c by (simp add: filtered_out_def Cons.IH Let_def split: sum.splits)
qed

lemma accepted_chunk_id:
  "x \<in> set (accepted one_minus cs pf cf i cands) \<Longrightarrow> x ''chunk_id'' \<noteq> Some (PInt (-1))"
proof (induction cands arbitrary: i)
  case Nil
  then show ?case by simp
next
  case (Cons c rest)
  obtain distance idx where c: "c = (distance, idx)" by (cases c)
  from Cons.prems Cons.IH show ?case
    unfolding c by (auto split: if_splits sum.splits simp: annotate_def)
qed

section \<open>The ranks of the results\<close>

text \<open>
  Claim C1, as the code has it. The claim says that a result's \<^verbatim>\<open>rank\<close> is its 1-based position
  among the accepted results. The loop sets \<^verbatim>\<open>chunk['rank'] = i + 1\<close> with \<open>i\<close> the index of
  \<^verbatim>\<open>enumerate\<close> over the raw candidates: whenever \<^verbatim>\<open>search\<close> returns a list, the result at each
  position comes from one raw candidate \<open>j\<close>, carries that candidate's label as \<^verbatim>\<open>chunk_id\<close> and
  the float32 difference of one and its distance as score, and has rank \<open>j + 1\<close>; the positions \<open>j\<close> increase strictly
  along the list, so the ranks increase strictly but skip the candidates that were dropped.
\<close>

theorem rank_is_candidate_position:
  assumes "index r (model r q) (min (top_k * 3) (int (length (chunks r)))) = Inr cands"
      and "search one_minus r q top_k pf cf = Inr rs"
  shows "\<exists>js. sorted_wrt (<) js \<and> set js \<subseteq> {..<length cands}
           \<and> map (\<lambda>x. (x ''rank'', x ''chunk_id'', x ''similarity_score'')) rs
               = map (\<lambda>j. (Some (PInt (int j + 1)), Some (PInt (snd (cands ! j))),
                             Some (PFloat (one_minus (fst (cands ! j)))))) js"
proof -
  from assms have "collect one_minus (chunks r) top_k pf cf 0 cands [] = Inr rs"
    by (simp add: search_def)
  from collect_prefix[OF this] obtain n where
    rs: "rs = take n (accepted one_minus (chunks r) pf cf 0 cands)" by auto
  from accepted_ranks[of cands one_minus "chunks r" pf cf 0] obtain js where
    js: "sorted_wrt (<) js" "set js \<subseteq> {..<length cands}"
        "map (\<lambda>x. (x ''rank'', x ''chunk_id'', x ''similarity_score''))
            (accepted one_minus (chunks r) pf cf 0 cands)
          = map (\<lambda>j. (Some (PInt (int (0 + j) + 1)), Some (PInt (snd (cands ! j))),
                        Some (PFloat (one_minus (fst (cands ! j)))))) js" by blast
  have "sorted_wrt (<) (take n js)" using js(1) by (rule sorted_wrt_take)
  moreover have "set (take n js) \<subseteq> {..<length cands}"
    using js(2) set_take_subset[of n js] by blast
  moreover have "map (\<lambda>x. (x ''rank'', x ''chunk_id'', x ''similarity_score'')) rs
               = map (\<lambda>j. (Some (PInt (int j + 1)), Some (PInt (snd (cands ! j))),
                             Some (PFloat (one_minus (fst (cands ! j)))))) (take n js)"
    unfolding rs take_map[symmetric] using js(3) by simp
  ultimately show ?thesis by blast
qed

theorem rank_is_candidate_position_witness:
  "index demo (model demo ''q'') (min (1 * 3) (int (length (chunks demo))))
      = Inr [(1/8, 1), (3/8, 0)]
   \<and> search exact demo ''q'' 1 (Some ''A'') None = Inr [annotate exact chunk_a 1 (3/8) 0]
   \<and> (\<exists>js. sorted_wrt (<) js \<and> set js \<subseteq> {..<length [(1/8 :: real, 1 :: int), (3/8, 0)]}
           \<and> map (\<lambda>x. (x ''rank'', x ''chunk_id'', x ''similarity_score''))
                 [annotate exact chunk_a 1 (3/8) 0]
               = map (\<lambda>j. (Some (PInt (int j + 1)),
                             Some (PInt (snd ([(1/8 :: real, 1 :: int), (3/8, 0)] ! j))),
                             Some (PFloat (exact (fst ([(1/8 :: real, 1 :: int), (3/8, 0)] ! j)))))) js)"
proof -
  have h1: "index demo (model demo ''q'') (min (1 * 3) (int (length (chunks demo))))
      = Inr [(1/8, 1), (3/8, 0)]"
    by (simp add: demo_def demo_index_def)
  have h2: "search exact demo ''q'' 1 (Some ''A'') None = Inr [annotate exact chunk_a 1 (3/8) 0]"
    by (simp add: search_def demo_def demo_index_def getitem_def filtered_out_def
        chunk_a_def chunk_b_def)
  from rank_is_candidate_position[OF h1 h2] h1 h2 show ?thesis by blast
qed

text \<open>
  Claim C1 fails as stated: with the plan filter \<^verbatim>\<open>"A"\<close> the first candidate (a chunk of plan B)
  is dropped, and the only result returned has rank 2, not 1.
\<close>

theorem rank_counterexample:
  "search exact demo ''q'' 1 (Some ''A'') None = Inr [annotate exact chunk_a 1 (3/8) 0]
   \<and> length [annotate exact chunk_a 1 (3/8) 0] = 1
   \<and> annotate exact chunk_a 1 (3/8) 0 ''rank'' = Some (PInt 2)"
  by (simp add: search_def demo_def demo_index_def getitem_def filtered_out_def
      chunk_a_def chunk_b_def annotate_def)

section \<open>Length and order of the results\<close>

text \<open>
  Claim C3: for every query and every \<^verbatim>\<open>top_k\<close>, the list \<^verbatim>\<open>search\<close> returns has at most
  \<^verbatim>\<open>top_k\<close> elements and its similarity scores do not increase from first to last. FAISS is
  external; the theorem takes from it that the answer to a request for \<open>k\<close> neighbours has
  \<open>k\<close> entries, in order of ascending distance, and from float32 arithmetic that the rounded
  difference \<^verbatim>\<open>1 - distance\<close> does not grow when the distance grows.
\<close>

theorem search_length_and_order:
  assumes "index r (model r q) (min (top_k * 3) (int (length (chunks r)))) = Inr cands"
      and "int (length cands) = min (top_k * 3) (int (length (chunks r)))"
      and "sorted (map fst cands)"
      and "search one_minus r q top_k pf cf = Inr rs"
      and "antimono one_minus"
  shows "int (length rs) \<le> top_k
         \<and> (\<exists>sims. map (\<lambda>x. x ''similarity_score'') rs = map (\<lambda>s. Some (PFloat s)) sims
                    \<and> sorted_wrt (\<ge>) sims)"
proof -
  from assms(1,4) have c: "collect one_minus (chunks r) top_k pf cf 0 cands [] = Inr rs"
    by (simp add: search_def)
  have len: "int (length rs) \<le> top_k"
  proof (cases "0 < top_k")
    case True
    with collect_length[OF c] show ?thesis by simp
  next
    case False
    have "0 \<le> int (length cands)" by simp
    with assms(2) have k0: "0 \<le> min (top_k * 3) (int (length (chunks r)))" by simp
    with False have t0: "top_k = 0" by (simp add: min_def split: if_splits)
    with assms(2) have "cands = []" by simp
    with c t0 show ?thesis by simp
  qed
  from collect_prefix[OF c] obtain n where
    rs: "rs = take n (accepted one_minus (chunks r) pf cf 0 cands)" by auto
  from accepted_scores[OF assms(3), of one_minus "chunks r" pf cf 0] obtain ds where
    ds: "sorted ds"
        "map (\<lambda>x. x ''similarity_score'') (accepted one_minus (chunks r) pf cf 0 cands)
           = map (\<lambda>d. Some (PFloat (one_minus d))) ds" by blast
  have "map (\<lambda>x. x ''similarity_score'') rs
          = map (\<lambda>s. Some (PFloat s)) (map one_minus (take n ds))"
    unfolding rs take_map[symmetric] using ds(2) by (simp add: take_map)
  with scores_descending[OF ds(1) assms(5), of n] len show ?thesis by blast
qed

theorem search_length_and_order_witness:
  "index demo (model demo ''q'') (min (2 * 3) (int (length (chunks demo))))
      = Inr [(1/8, 1), (3/8, 0)]
   \<and> int (length [(1/8 :: real, 1 :: int), (3/8, 0)]) = min (2 * 3) (int (length (chunks demo)))
   \<and> sorted (map fst [(1/8 :: real, 1 :: int), (3/8, 0)])
   \<and> search exact demo ''q'' 2 None None
        = Inr [annotate exact chunk_b 0 (1/8) 1, annotate exact chunk_a 1 (3/8) 0]
   \<and> antimono exact
   \<and> int (length [annotate exact chunk_b 0 (1/8) 1, annotate exact chunk_a 1 (3/8) 0]) \<le> 2
   \<and> (\<exists>sims. map (\<lambda>x. x ''similarity_score'')
                  [annotate exact chunk_b 0 (1/8) 1, annotate exact chunk_a 1 (3/8) 0]
                = map (\<lambda>s. Some (PFloat s)) sims
              \<and> sorted_wrt (\<ge>) sims)"
proof -
  have h1: "index demo (model demo ''q'') (min (2 * 3) (int (length (chunks demo))))
      = Inr [(1/8, 1), (3/8, 0)]"
    by (simp add: demo_def demo_index_def)
  have h2: "int (length [(1/8 :: real, 1 :: int), (3/8, 0)])
      = min (2 * 3) (int (length (chunks demo)))"
    by (simp add: demo_def)
  have h3: "sorted (map fst [(1/8 :: real, 1 :: int), (3/8, 0)])" by simp
  have h4: "search exact demo ''q'' 2 None None
        = Inr [annotate exact chunk_b 0 (1/8) 1, annotate exact chunk_a 1 (3/8) 0]"
    by (simp add: search_def demo_def demo_index_def getitem_def filtered_out_def)
  have h5: "antimono exact" by (rule antimonoI) (simp add: exact_def)
  from search_length_and_order[OF h1 h2 h3 h4 h5] h1 h2 h3 h4 h5 show ?thesis by blast
qed

section \<open>The filters\<close>

text \<open>
  Claim C4, as the code has it. Whenever \<^verbatim>\<open>search\<close> returns a list: with a plan filter that is
  a non-empty string \<open>p\<close>, every result has \<^verbatim>\<open>plan_name\<close> equal to \<open>p\<close>; with a category
  filter that is a non-empty string \<open>c\<close>, every result has \<^verbatim>\<open>category\<close> equal to \<open>c\<close>; both hold
  together when both filters are given. (An empty string is falsy and filters nothing.)
\<close>

theorem filters_hold:
  assumes "search one_minus r q top_k pf cf = Inr rs"
  shows "(\<forall>p. pf = Some p \<and> p \<noteq> [] \<longrightarrow> (\<forall>x\<in>set rs. x ''plan_name'' = Some (PStr p)))
       \<and> (\<forall>c. cf = Some c \<and> c \<noteq> [] \<longrightarrow> (\<forall>x\<in>set rs. x ''category'' = Some (PStr c)))"
proof -
  from assms obtain cands where
    "collect one_minus (chunks r) top_k pf cf 0 cands [] = Inr rs"
    by (auto simp: search_def split: sum.splits)
  from collect_prefix[OF this] obtain n where
    rs: "rs = take n (accepted one_minus (chunks r) pf cf 0 cands)" by auto
  have pass: "\<not> filtered_out pf ''plan_name'' x \<and> \<not> filtered_out cf ''category'' x"
    if "x \<in> set rs" for x
  proof -
    from that rs have "x \<in> set (accepted one_minus (chunks r) pf cf 0 cands)"
      by (auto dest: in_set_takeD)
    then show ?thesis by (rule accepted_pass)
  qed
  show ?thesis using pass by (auto simp: filtered_out_def)
qed

theorem filters_hold_witness:
  "search exact demo ''q'' 1 (Some ''A'') (Some ''dental'') = Inr [annotate exact chunk_a 1 (3/8) 0]
   \<and> annotate exact chunk_a 1 (3/8) 0 ''plan_name'' = Some (PStr ''A'')
   \<and> annotate exact chunk_a 1 (3/8) 0 ''category'' = Some (PStr ''dental'')"
proof -
  have h: "search exact demo ''q'' 1 (Some ''A'') (Some ''dental'') = Inr [annotate exact chunk_a 1 (3/8) 0]"
    by (simp add: search_def demo_def demo_index_def getitem_def filtered_out_def
        chunk_a_def chunk_b_def)
  from filters_hold[OF h] h show ?thesis by simp
qed

text \<open>
  Claim C4 fails as stated for the filter value \<^verbatim>\<open>""\<close>: the search with the empty string as
  plan filter returns a chunk of plan B.
\<close>

theorem empty_filter_counterexample:
  "search exact demo ''q'' 1 (Some []) None = Inr [annotate exact chunk_b 0 (1/8) 1]
   \<and> annotate exact chunk_b 0 (1/8) 1 ''plan_name'' = Some (PStr ''B'')
   \<and> annotate exact chunk_b 0 (1/8) 1 ''plan_name'' \<noteq> Some (PStr [])"
  by (simp add: search_def demo_def demo_index_def getitem_def filtered_out_def
      chunk_b_def annotate_def)

text \<open>
  Claim C10: \<^verbatim>\<open>search\<close> with the empty string as plan filter (and likewise as category
  filter) returns what it returns with that filter absent, whatever the other arguments.
\<close>

theorem empty_filter_is_no_filter:
  "search one_minus r q top_k (Some []) cf = search one_minus r q top_k None cf
   \<and> search one_minus r q top_k pf (Some []) = search one_minus r q top_k pf None"
  by (simp add: search_def collect_empty_plan_filter collect_empty_category_filter
      split: sum.splits)

theorem empty_filter_is_no_filter_witness:
  "search exact demo ''q'' 1 (Some []) None = search exact demo ''q'' 1 None None
   \<and> search exact demo ''q'' 1 None (Some []) = search exact demo ''q'' 1 None None
   \<and> search exact demo ''q'' 1 None None = Inr [annotate exact chunk_b 0 (1/8) 1]"
proof -
  have "search exact demo ''q'' 1 None None = Inr [annotate exact chunk_b 0 (1/8) 1]"
    by (simp add: search_def demo_def demo_index_def getitem_def filtered_out_def)
  with empty_filter_is_no_filter[of exact demo "''q''" 1 None None] show ?thesis by simp
qed

section \<open>Oversampling, the sentinel and short results\<close>

text \<open>
  Claim C8, as the code has it. When the index answers the request for \<open>min (top_k * 3) N\<close> neighbours, \<open>N\<close> the
  number of chunks, with candidates whose labels are the sentinel or positions of chunks:
  \<^verbatim>\<open>search\<close> returns a list; the list depends on the index through the answer to that one
  request only; no result carries the sentinel as \<^verbatim>\<open>chunk_id\<close>, and up to ranks the results are
  those of the same candidates with the sentinel entries deleted; the results are the first
  \<open>top_k\<close> accepted results (the first one when \<open>top_k\<close> is below 1), so nothing is padded;
  and when fewer than \<open>top_k\<close> candidates are accepted, all of them are returned, without error.
\<close>

theorem oversampling_and_short_results:
  assumes "index r (model r q) (min (top_k * 3) (int (length (chunks r)))) = Inr cands"
      and "valid_labels (length (chunks r)) cands"
  shows "\<exists>rs. search one_minus r q top_k pf cf = Inr rs
     \<and> (\<forall>r'. chunks r' = chunks r
              \<and> index r' (model r' q) (min (top_k * 3) (int (length (chunks r)))) = Inr cands
            \<longrightarrow> search one_minus r' q top_k pf cf = Inr rs)
     \<and> (\<forall>x\<in>set rs. x ''chunk_id'' \<noteq> Some (PInt (-1)))
     \<and> map without_rank rs
         = map without_rank
             (take (max 1 (nat top_k))
                (accepted one_minus (chunks r) pf cf 0 (filter (\<lambda>(d, l). l \<noteq> -1) cands)))
     \<and> rs = take (max 1 (nat top_k)) (accepted one_minus (chunks r) pf cf 0 cands)
     \<and> (int (length (accepted one_minus (chunks r) pf cf 0 cands)) < top_k
          \<longrightarrow> rs = accepted one_minus (chunks r) pf cf 0 cands)"
proof -
  let ?acc = "accepted one_minus (chunks r) pf cf 0 cands"
  let ?rs = "take (max 1 (nat top_k)) ?acc"
  have c: "collect one_minus (chunks r) top_k pf cf 0 cands [] = Inr ?rs"
    using collect_char[OF assms(2), of one_minus top_k pf cf 0 "[]"] by simp
  with assms(1) have s: "search one_minus r q top_k pf cf = Inr ?rs" by (simp add: search_def)
  have dep: "search one_minus r' q top_k pf cf = Inr ?rs"
    if "chunks r' = chunks r
        \<and> index r' (model r' q) (min (top_k * 3) (int (length (chunks r)))) = Inr cands" for r'
    using that c by (simp add: search_def)
  have ids: "\<forall>x\<in>set ?rs. x ''chunk_id'' \<noteq> Some (PInt (-1))"
    by (auto dest!: in_set_takeD accepted_chunk_id)
  have sent: "map without_rank ?rs
         = map without_rank
             (take (max 1 (nat top_k))
                (accepted one_minus (chunks r) pf cf 0 (filter (\<lambda>(d, l). l \<noteq> -1) cands)))"
    by (simp add: take_map[symmetric] accepted_sentinel[of one_minus "chunks r" pf cf 0 cands 0])
  have short: "int (length ?acc) < top_k \<longrightarrow> ?rs = ?acc" by auto
  from s dep ids sent short show ?thesis by blast
qed

theorem oversampling_and_short_results_witness:
  "index sparse (model sparse ''q'') (min (2 * 3) (int (length (chunks sparse))))
      = Inr [(1/8, 0), (5, -1)]
   \<and> valid_labels (length (chunks sparse)) [(1/8, 0), (5, -1)]
   \<and> search exact sparse ''q'' 2 None None = Inr [annotate exact chunk_a 0 (1/8) 0]
   \<and> accepted exact (chunks sparse) None None 0 [(1/8, 0), (5, -1)] = [annotate exact chunk_a 0 (1/8) 0]"
proof -
  have h1: "index sparse (model sparse ''q'') (min (2 * 3) (int (length (chunks sparse))))
      = Inr [(1/8, 0), (5, -1)]"
    by (simp add: sparse_def sparse_index_def)
  have h2: "valid_labels (length (chunks sparse)) [(1/8, 0), (5, -1)]"
    by (simp add: valid_labels_def sparse_def)
  have h3: "accepted exact (chunks sparse) None None 0 [(1/8, 0), (5, -1)]
      = [annotate exact chunk_a 0 (1/8) 0]"
    by (simp add: sparse_def getitem_def filtered_out_def)
  from oversampling_and_short_results[OF h1 h2, of exact None None] h1 h2 h3
  show ?thesis by auto
qed

text \<open>
  Claim C8 fails as stated, for it speaks of every search call: over the chunks of the
  half-saved location the index answers with a label beyond the chunk list, nothing is
  accepted, and \<^verbatim>\<open>search\<close> raises IndexError instead of returning the smaller set.
\<close>

theorem search_error_counterexample:
  "index stale (model stale ''q'') (min (1 * 3) (int (length (chunks stale)))) = Inr [(1/8, 1)]
   \<and> accepted exact (chunks stale) None None 0 [(1/8, 1)] = []
   \<and> search exact stale ''q'' 1 None None = Inl IndexError"
  by (simp add: stale_def search_def demo_index_def getitem_def)

section \<open>The classifier\<close>

text \<open>
  Claim C2: for every input text the classifier works on the lower-cased text, scores each of
  the 17 categories by the number of its keyword phrases that occur in the text as substrings,
  each phrase counting once, and returns the first-defined category that attains the maximum
  score when the maximum is positive (every earlier category scores strictly less, every later
  one at most as much), and \<^verbatim>\<open>general\<close> when no phrase occurs. The lower-casing is the
  \<^verbatim>\<open>.lower()\<close> of the service and of the description where \<^verbatim>\<open>_create_benefit_chunk\<close> calls
  \<^verbatim>\<open>_classify\<close>, its only call. In particular a text whose only keyword matches are \<^verbatim>\<open>gym\<close>
  and \<^verbatim>\<open>wellness\<close> is classified as \<^verbatim>\<open>wellness\<close>.
\<close>

theorem classify_first_maximum:
  "length categories = 17
   \<and> (\<forall>(c, kws)\<in>set categories. score kws text = card {kw \<in> set kws. sublist kw text})
   \<and> (if \<exists>(c, kws)\<in>set categories. 0 < score kws text
       then \<exists>pre kws post. categories = pre @ (classify text, kws) # post
              \<and> 0 < score kws text
              \<and> (\<forall>(c, k)\<in>set pre. score k text < score kws text)
              \<and> (\<forall>(c, k)\<in>set post. score k text \<le> score kws text)
       else classify text = ''general'')
   \<and> ((\<forall>kw\<in>set (concat (map snd categories)).
           sublist kw text = (kw = ''gym'' \<or> kw = ''wellness''))
        \<longrightarrow> classify text = ''wellness'')
   \<and> (\<forall>fmt lower benefit metadata chunk.
         create_benefit_chunk fmt lower benefit metadata = Inr chunk \<and> metadata ''category'' = None
         \<longrightarrow> (\<exists>service description.
                benefit ''service'' = Some (PStr service)
              \<and> benefit ''description'' = Some (PStr description)
              \<and> chunk ''category''
                  = Some (PStr (classify (lower service @ '' '' @ lower description)))))"
proof -
  have a: "\<forall>(c, kws)\<in>set categories. score kws text = card {kw \<in> set kws. sublist kw text}"
    using categories_distinct score_card by blast
  have b: "if \<exists>(c, kws)\<in>set categories. 0 < score kws text
       then \<exists>pre kws post. categories = pre @ (classify text, kws) # post
              \<and> 0 < score kws text
              \<and> (\<forall>(c, k)\<in>set pre. score k text < score kws text)
              \<and> (\<forall>(c, k)\<in>set post. score k text \<le> score kws text)
       else classify text = ''general''"
  proof (cases "\<exists>(c, kws)\<in>set categories. 0 < score kws text")
    case True
    with classify_first_max_aux[OF True] show ?thesis by simp
  next
    case False
    then have "\<forall>(c, kws)\<in>set categories. score kws text = 0" by auto
    from classify_general[OF this] False show ?thesis by simp
  qed
  have c: "(\<forall>kw\<in>set (concat (map snd categories)).
           sublist kw text = (kw = ''gym'' \<or> kw = ''wellness''))
        \<longrightarrow> classify text = ''wellness''"
    using gym_wellness[of "text"] by (simp only: py_in_sublist) blast
  have d: "\<exists>service description.
                benefit ''service'' = Some (PStr service)
              \<and> benefit ''description'' = Some (PStr description)
              \<and> chunk ''category''
                  = Some (PStr (classify (lower service @ '' '' @ lower description)))"
    if "create_benefit_chunk fmt lower benefit metadata = Inr chunk \<and> metadata ''category'' = None"
    for fmt lower benefit metadata chunk
  proof -
    from that create_benefit_chunk_Inr[of fmt lower benefit metadata chunk]
    obtain service description where
      sd: "benefit ''service'' = Some (PStr service)"
          "benefit ''description'' = Some (PStr description)"
      and ch: "chunk = [''text'' \<mapsto> PStr (benefit_text fmt lower metadata service description),
                     ''service'' \<mapsto> PStr service,
                     ''description'' \<mapsto> PStr description,
                     ''type'' \<mapsto> PStr ''benefit'',
                     ''category'' \<mapsto> PStr (classify (lower service @ '' '' @ lower description))]
                    ++ metadata" by blast
    from that have "chunk ''category''
         = Some (PStr (classify (lower service @ '' '' @ lower description)))"
      unfolding ch by (simp add: map_add_def)
    with sd show ?thesis by blast
  qed
  from categories_length a b c d show ?thesis by blast
qed

theorem classify_first_maximum_witness:
  "list_all (\<lambda>kw. sublist kw ''gym wellness'' = (kw = ''gym'' \<or> kw = ''wellness''))
      (concat (map snd categories))
   \<and> classify ''gym wellness'' = ''wellness''
   \<and> plain_metadata ''category'' = None
   \<and> (\<exists>chunk. create_benefit_chunk no_format ascii_lower gym_benefit plain_metadata = Inr chunk
          \<and> chunk ''category''
              = Some (PStr (classify (ascii_lower ''Gym Membership'' @ '' '' @ ascii_lower ''Free''))))
   \<and> ascii_lower ''Gym Membership'' @ '' '' @ ascii_lower ''Free'' = ''gym membership free''
   \<and> classify ''gym membership free'' = ''wellness''"
proof -
  have h: "\<forall>kw\<in>set (concat (map snd categories)).
           sublist kw ''gym wellness'' = (kw = ''gym'' \<or> kw = ''wellness'')"
    by (simp add: categories_def py_in_sublist[symmetric])
  note t = classify_first_maximum[of "''gym wellness''"]
  note t4 = t[THEN conjunct2, THEN conjunct2, THEN conjunct2, THEN conjunct1]
  note t5 = t[THEN conjunct2, THEN conjunct2, THEN conjunct2, THEN conjunct2]
  from t4 h have 1: "classify ''gym wellness'' = ''wellness''" by blast
  have m: "plain_metadata ''category'' = None" by (simp add: plain_metadata_def)
  obtain chunk where
    c: "create_benefit_chunk no_format ascii_lower gym_benefit plain_metadata = Inr chunk"
    by (simp add: create_benefit_chunk_def gym_benefit_def)
  from t5 c m obtain service description where
    sd: "gym_benefit ''service'' = Some (PStr service)"
        "gym_benefit ''description'' = Some (PStr description)"
    and cat: "chunk ''category''
        = Some (PStr (classify (ascii_lower service @ '' '' @ ascii_lower description)))"
    by blast
  from sd have "service = ''Gym Membership''" "description = ''Free''"
    by (simp_all add: gym_benefit_def)
  with cat c have 2: "\<exists>chunk. create_benefit_chunk no_format ascii_lower gym_benefit plain_metadata
          = Inr chunk
        \<and> chunk ''category''
            = Some (PStr (classify (ascii_lower ''Gym Membership'' @ '' '' @ ascii_lower ''Free'')))"
    by blast
  have 3: "ascii_lower ''Gym Membership'' @ '' '' @ ascii_lower ''Free'' = ''gym membership free''"
    by (simp add: ascii_lower_def ascii_lower_char_def)
  have 4: "classify ''gym membership free'' = ''wellness''"
    by (simp add: classify_def scores_def score_def categories_def)
  from h 1 m 2 3 4 show ?thesis by (simp add: list_all_iff)
qed

section \<open>The metadata is merged last\<close>

text \<open>
  Claim C9: in the overview chunk and in a benefit chunk the plan metadata is merged last, so
  every key of the metadata has the metadata's value in the chunk, the keys \<^verbatim>\<open>category\<close>,
  \<^verbatim>\<open>text\<close> and \<^verbatim>\<open>type\<close> included; the computed category (of the classifier, or \<^verbatim>\<open>general\<close> for
  an overview), text and type are the chunk's when the metadata has no such key.
\<close>

theorem metadata_merged_last:
  "(\<forall>k v. metadata k = Some v \<longrightarrow> create_overview fmt metadata k = Some v)
   \<and> (metadata ''category'' = None
        \<longrightarrow> create_overview fmt metadata ''category'' = Some (PStr ''general''))
   \<and> (metadata ''type'' = None
        \<longrightarrow> create_overview fmt metadata ''type'' = Some (PStr ''overview''))
   \<and> (metadata ''text'' = None
        \<longrightarrow> create_overview fmt metadata ''text'' = Some (PStr (overview_text fmt metadata)))
   \<and> (\<forall>chunk. create_benefit_chunk fmt lower benefit metadata = Inr chunk \<longrightarrow>
         (\<forall>k v. metadata k = Some v \<longrightarrow> chunk k = Some v)
       \<and> (\<exists>service description.
             benefit ''service'' = Some (PStr service)
           \<and> benefit ''description'' = Some (PStr description)
           \<and> (metadata ''category'' = None
                \<longrightarrow> chunk ''category''
                     = Some (PStr (classify (lower service @ '' '' @ lower description))))
           \<and> (metadata ''type'' = None \<longrightarrow> chunk ''type'' = Some (PStr ''benefit''))
           \<and> (metadata ''text'' = None
                \<longrightarrow> chunk ''text''
                     = Some (PStr (benefit_text fmt lower metadata service description)))))"
proof -
  have ov: "(\<forall>k v. metadata k = Some v \<longrightarrow> create_overview fmt metadata k = Some v)
   \<and> (metadata ''category'' = None
        \<longrightarrow> create_overview fmt metadata ''category'' = Some (PStr ''general''))
   \<and> (metadata ''type'' = None
        \<longrightarrow> create_overview fmt metadata ''type'' = Some (PStr ''overview''))
   \<and> (metadata ''text'' = None
        \<longrightarrow> create_overview fmt metadata ''text'' = Some (PStr (overview_text fmt metadata)))"
    by (simp add: create_overview_def map_add_def)
  have be: "(\<forall>k v. metadata k = Some v \<longrightarrow> chunk k = Some v)
       \<and> (\<exists>service description.
             benefit ''service'' = Some (PStr service)
           \<and> benefit ''description'' = Some (PStr description)
           \<and> (metadata ''category'' = None
                \<longrightarrow> chunk ''category''
                     = Some (PStr (classify (lower service @ '' '' @ lower description))))
           \<and> (metadata ''type'' = None \<longrightarrow> chunk ''type'' = Some (PStr ''benefit''))
           \<and> (metadata ''text'' = None
                \<longrightarrow> chunk ''text''
                     = Some (PStr (benefit_text fmt lower metadata service description))))"
    if "create_benefit_chunk fmt lower benefit metadata = Inr chunk" for chunk
  proof -
    from create_benefit_chunk_Inr[OF that]
    obtain service description where
      sd: "benefit ''service'' = Some (PStr service)"
          "benefit ''description'' = Some (PStr description)"
      and ch: "chunk = [''text'' \<mapsto> PStr (benefit_text fmt lower metadata service description),
                     ''service'' \<mapsto> PStr service,
                     ''description'' \<mapsto> PStr description,
                     ''type'' \<mapsto> PStr ''benefit'',
                     ''category'' \<mapsto> PStr (classify (lower service @ '' '' @ lower description))]
                    ++ metadata" by blast
    have 1: "\<forall>k v. metadata k = Some v \<longrightarrow> chunk k = Some v"
      unfolding ch by (simp add: map_add_def)
    have 2: "metadata ''category'' = None
                \<longrightarrow> chunk ''category''
                     = Some (PStr (classify (lower service @ '' '' @ lower description)))"
      unfolding ch by (simp add: map_add_def)
    have 3: "metadata ''type'' = None \<longrightarrow> chunk ''type'' = Some (PStr ''benefit'')"
      unfolding ch by (simp add: map_add_def)
    have 4: "metadata ''text'' = None
                \<longrightarrow> chunk ''text''
                     = Some (PStr (benefit_text fmt lower metadata service description))"
      unfolding ch by (simp add: map_add_def)
    from sd 2 3 4 have "\<exists>service description.
             benefit ''service'' = Some (PStr service)
           \<and> benefit ''description'' = Some (PStr description)
           \<and> (metadata ''category'' = None
                \<longrightarrow> chunk ''category''
                     = Some (PStr (classify (lower service @ '' '' @ lower description))))
           \<and> (metadata ''type'' = None \<longrightarrow> chunk ''type'' = Some (PStr ''benefit''))
           \<and> (metadata ''text'' = None
                \<longrightarrow> chunk ''text''
                     = Some (PStr (benefit_text fmt lower metadata service description)))"
      by (intro exI[of _ service] exI[of _ description]) simp
    with 1 show ?thesis by (rule conjI)
  qed
  from ov be show ?thesis by blast
qed

theorem metadata_merged_last_witness:
  "tagged_metadata ''category'' = Some (PStr ''custom'')
   \<and> create_overview no_format tagged_metadata ''category'' = Some (PStr ''custom'')
   \<and> (\<exists>chunk. create_benefit_chunk no_format ascii_lower gym_benefit tagged_metadata = Inr chunk
          \<and> chunk ''category'' = Some (PStr ''custom''))
   \<and> classify (ascii_lower ''Gym Membership'' @ '' '' @ ascii_lower ''Free'') = ''wellness''"
proof -
  have h: "tagged_metadata ''category'' = Some (PStr ''custom'')"
    by (simp add: tagged_metadata_def)
  obtain chunk where c: "create_benefit_chunk no_format ascii_lower gym_benefit tagged_metadata = Inr chunk"
    by (simp add: create_benefit_chunk_def gym_benefit_def)
  have w: "classify (ascii_lower ''Gym Membership'' @ '' '' @ ascii_lower ''Free'') = ''wellness''"
    by (simp add: classify_def scores_def score_def categories_def ascii_lower_def ascii_lower_char_def)
  from metadata_merged_last[of tagged_metadata no_format ascii_lower gym_benefit] h c w
  show ?thesis by auto
qed

section \<open>Saving and loading\<close>

lemma save_all_result:
  "save_all dimension idx cs emb out fs
     = Inr (fs(out \<mapsto>
         (case fs out of None \<Rightarrow> Map.empty | Some d \<Rightarrow> d)
           (''benefits.index'' \<mapsto> IndexFile idx,
            ''chunks.pkl'' \<mapsto> PickleFile cs,
            ''embeddings.npy'' \<mapsto> NpyFile emb,
            ''metadata.json'' \<mapsto> JsonFile (summary dimension cs))))"
  by (cases "fs out")
     (simp_all add: save_all_def save_steps_def mkdir_def open_for_writing_def
        write_content_def put_file_def)

lemma load_all_complete:
  assumes "fs out = Some d" "d ''benefits.index'' = Some (IndexFile idx)"
    "d ''chunks.pkl'' = Some (PickleFile cs)" "d ''embeddings.npy'' = Some (NpyFile emb)"
  shows "load_all fs out = Inr (idx, cs, emb)"
  using assms by (simp add: load_all_def read_index_def read_chunks_def read_embeddings_def)

lemma interrupted_cases:
  fixes n :: nat
  obtains "n = 0" | "n = 1" | "n = 2" | "n = 3" | "n = 4" | "n = 5" | "n = 6" | "n = 7"
    | "n = 8" | "9 \<le> n"
  by linarith

lemmas effects =
  save_all_interrupted_def save_steps_def mkdir_def open_for_writing_def write_content_def
  put_file_def file_at_def eval_nat_numeral

lemmas readers = load_all_def read_index_def read_chunks_def read_embeddings_def

lemma indexes_differ: "demo_index \<noteq> sparse_index"
proof
  assume "demo_index = sparse_index"
  then have "demo_index [] 1 = sparse_index [] 1" by simp
  then show False by (simp add: demo_index_def sparse_index_def)
qed

text \<open>
  Claim C6: \<^verbatim>\<open>save_all\<close> always completes, and \<^verbatim>\<open>load_all\<close> from the location right after it
  returns the index, the chunks and the embeddings that were saved: the same number of
  passages, the same shape of the vector matrix, and the summary metadata of the loaded chunks
  is the one in the metadata file of the location.
\<close>

theorem load_after_save:
  "\<exists>fs'. save_all dimension idx cs emb out fs = Inr fs'
      \<and> (\<exists>idx' cs' emb'. load_all fs' out = Inr (idx', cs', emb')
             \<and> idx' = idx \<and> cs' = cs \<and> emb' = emb
             \<and> length cs' = length cs \<and> shape emb' = shape emb
             \<and> summary dimension cs' = summary dimension cs)
      \<and> (\<exists>d. fs' out = Some d
             \<and> d ''metadata.json'' = Some (JsonFile (summary dimension cs))
             \<and> total_chunks (summary dimension cs) = length cs
             \<and> embedding_dimension (summary dimension cs) = dimension)"
  by (simp add: save_all_result load_all_complete summary_def)

theorem load_after_save_witness:
  "\<exists>fs'. save_all 1 demo_index [chunk_a, chunk_b] two_vectors ''data/index'' old_unit = Inr fs'
      \<and> load_all fs' ''data/index'' = Inr (demo_index, [chunk_a, chunk_b], two_vectors)"
  using load_after_save[of 1 demo_index "[chunk_a, chunk_b]" two_vectors "''data/index''" old_unit]
  by blast

text \<open>
  Claim C5, as the code has it. \<^verbatim>\<open>save_all\<close> is not atomic: it writes the index, the chunks,
  the embeddings and the metadata in place, one file after the other, each by emptying the
  file and then writing it, with no temporary location and no rename. After a failure that
  follows its first \<open>n\<close> effects (of the nine: the directory, then the opening and the writing
  of each file) the location holds the new content of every file whose write was completed, a
  truncated file where the failure fell inside a write, and every file not yet opened as it
  was before; no other location changes. \<^verbatim>\<open>load_all\<close> rejects the location while the index,
  the chunks or the embeddings file is truncated. After a failure between the write of the
  index and that of the chunks, or between the write of the chunks and that of the
  embeddings, over a location that held chunks and embeddings before, \<^verbatim>\<open>load_all\<close> accepts the
  mixture of new and previous files. Once the embeddings are written, and so after a complete
  \<^verbatim>\<open>save_all\<close>, it returns the new index, chunks and embeddings.
\<close>

theorem save_all_in_place:
  "\<exists>fs'. save_all_interrupted n dimension idx cs emb out fs = Inr fs'
     \<and> (\<forall>p. p \<noteq> out \<longrightarrow> fs' p = fs p)
     \<and> (n = 0 \<longrightarrow> fs' = fs)
     \<and> (0 < n \<longrightarrow> fs' out \<noteq> None)
     \<and> file_at fs' out ''benefits.index''
         = (if 3 \<le> n then Some (IndexFile idx)
            else if 2 \<le> n then Some Truncated
            else file_at fs out ''benefits.index'')
     \<and> file_at fs' out ''chunks.pkl''
         = (if 5 \<le> n then Some (PickleFile cs)
            else if 4 \<le> n then Some Truncated
            else file_at fs out ''chunks.pkl'')
     \<and> file_at fs' out ''embeddings.npy''
         = (if 7 \<le> n then Some (NpyFile emb)
            else if 6 \<le> n then Some Truncated
            else file_at fs out ''embeddings.npy'')
     \<and> file_at fs' out ''metadata.json''
         = (if 9 \<le> n then Some (JsonFile (summary dimension cs))
            else if 8 \<le> n then Some Truncated
            else file_at fs out ''metadata.json'')
     \<and> (n = 2 \<or> n = 4 \<or> n = 6 \<longrightarrow> (\<exists>e. load_all fs' out = Inl e))
     \<and> (\<forall>cs0 emb0. n = 3 \<and> file_at fs out ''chunks.pkl'' = Some (PickleFile cs0)
            \<and> file_at fs out ''embeddings.npy'' = Some (NpyFile emb0)
          \<longrightarrow> load_all fs' out = Inr (idx, cs0, emb0))
     \<and> (\<forall>emb0. n = 5 \<and> file_at fs out ''embeddings.npy'' = Some (NpyFile emb0)
          \<longrightarrow> load_all fs' out = Inr (idx, cs, emb0))
     \<and> (7 \<le> n \<longrightarrow> load_all fs' out = Inr (idx, cs, emb))"
proof (cases n rule: interrupted_cases)
  case 1
  then show ?thesis by (simp add: save_all_interrupted_def)
next
  case 2
  then show ?thesis by (cases "fs out") (auto simp: effects)
next
  case 3
  then show ?thesis by (cases "fs out") (auto simp: effects readers)
next
  case 4
  then show ?thesis by (cases "fs out") (auto simp: effects readers)
next
  case 5
  then show ?thesis by (cases "fs out") (auto simp: effects readers)
next
  case 6
  then show ?thesis by (cases "fs out") (auto simp: effects readers)
next
  case 7
  then show ?thesis by (cases "fs out") (auto simp: effects readers)
next
  case 8
  then show ?thesis by (cases "fs out") (auto simp: effects readers)
next
  case 9
  then show ?thesis by (cases "fs out") (auto simp: effects readers)
next
  case 10
  then have "take n (save_steps dimension idx cs emb out) = save_steps dimension idx cs emb out"
    by (simp add: save_steps_def)
  with 10 show ?thesis
    by (cases "fs out")
       (auto simp: save_all_interrupted_def save_steps_def mkdir_def open_for_writing_def
          write_content_def put_file_def file_at_def readers)
qed

theorem save_all_in_place_witness:
  "save_all_interrupted 2 1 demo_index [chunk_a, chunk_b] two_vectors ''data/index'' old_unit
     = Inr [''data/index'' \<mapsto> old_directory(''benefits.index'' \<mapsto> Truncated)]
   \<and> load_all [''data/index'' \<mapsto> old_directory(''benefits.index'' \<mapsto> Truncated)] ''data/index''
     = Inl FaissRuntimeError"
proof -
  have s: "save_all_interrupted 2 1 demo_index [chunk_a, chunk_b] two_vectors ''data/index'' old_unit
     = Inr [''data/index'' \<mapsto> old_directory(''benefits.index'' \<mapsto> Truncated)]"
    by (simp add: effects old_unit_def)
  note t = save_all_in_place[of 2 1 demo_index "[chunk_a, chunk_b]" two_vectors "''data/index''"
      old_unit]
  from t obtain e where
    "load_all [''data/index'' \<mapsto> old_directory(''benefits.index'' \<mapsto> Truncated)]
      ''data/index'' = Inl e"
    unfolding s by auto
  moreover have
    "load_all [''data/index'' \<mapsto> old_directory(''benefits.index'' \<mapsto> Truncated)]
      ''data/index'' = Inl FaissRuntimeError"
    by (simp add: readers)
  ultimately show ?thesis using s by simp
qed

text \<open>
  Claim C5 fails as stated: a failure after the index file of a second unit is written leaves,
  over a previous complete unit, the new index with the previous chunks and embeddings, and
  \<^verbatim>\<open>load_all\<close> accepts that mixture.
\<close>

theorem save_all_not_atomic_counterexample:
  "save_all_interrupted 3 1 demo_index [chunk_a, chunk_b] two_vectors ''data/index'' old_unit
     = Inr half_saved
   \<and> load_all old_unit ''data/index'' = Inr (sparse_index, [chunk_a], one_vector)
   \<and> load_all half_saved ''data/index'' = Inr (demo_index, [chunk_a], one_vector)
   \<and> demo_index \<noteq> sparse_index
   \<and> [chunk_a] \<noteq> [chunk_a, chunk_b]"
  by (simp add: effects readers old_unit_def half_saved_def old_directory_def indexes_differ)

section \<open>Failures and totality of the retriever\<close>

lemma search_total:
  assumes "index r (model r q) (min (top_k * 3) (int (length (chunks r)))) = Inr cands"
      and "valid_labels (length (chunks r)) cands"
  shows "search one_minus r q top_k pf cf
           = Inr (take (max 1 (nat top_k)) (accepted one_minus (chunks r) pf cf 0 cands))"
  using collect_char[OF assms(2), of one_minus top_k pf cf 0 "[]"] assms(1) by (simp add: search_def)

lemma compare_loop_total:
  assumes "index r (model r q) (min (3 * 3) (int (length (chunks r)))) = Inr cands"
      and "valid_labels (length (chunks r)) cands"
  shows "\<exists>m. compare_loop one_minus r q plan_names acc = Inr m \<and> dom m = dom acc \<union> set plan_names"
proof (induction plan_names arbitrary: acc)
  case Nil
  then show ?case by simp
next
  case (Cons p ps)
  from search_total[OF assms, of one_minus "Some p" None] obtain rs where
    s: "search one_minus r q 3 (Some p) None = Inr rs" by blast
  from Cons.IH[of "acc(p \<mapsto> rs)"] obtain m where
    "compare_loop one_minus r q ps (acc(p \<mapsto> rs)) = Inr m" "dom m = dom (acc(p \<mapsto> rs)) \<union> set ps"
    by blast
  with s show ?case by auto
qed

lemma py_set_subset: "set (py_set xs) \<subseteq> set xs"
proof -
  have "set (foldl (\<lambda>seen x. if list_ex (\<lambda>y. py_eq y x) seen then seen else seen @ [x]) acc xs)
          \<subseteq> set acc \<union> set xs" for acc
    by (induction xs arbitrary: acc) (auto split: if_splits, fastforce+)
  from this[of "[]"] show ?thesis by (simp add: py_set_def)
qed

lemma py_sorted_strings:
  assumes "list_all is_str xs"
  shows "\<exists>ys. py_sorted (py_set xs) = Inr ys"
proof -
  from assms py_set_subset[of xs] have "list_all is_str (py_set xs)"
    by (auto simp: list_all_iff)
  then show ?thesis by (simp add: py_sorted_def)
qed


lemma find_overview:
  "find P xs = Some c \<Longrightarrow> c \<in> set xs \<and> P c"
  by (auto simp: find_Some_iff)

text \<open>
  Claim C7, as the code has it. Constructing a retriever over a location that does not exist
  fails with FileNotFoundError. \<^verbatim>\<open>load_all\<close> fails when the index file is missing (the
  RuntimeError of FAISS) and when the chunks or the embeddings file is missing
  (FileNotFoundError); it succeeds on the three files alone, for it never opens the metadata
  file, and so does the construction, which reads the index and the chunks only. The query
  operations return a result under these conditions: \<^verbatim>\<open>search\<close>, \<^verbatim>\<open>search_with_context\<close> and
  \<^verbatim>\<open>compare_plans\<close> when the index answers the request with labels that are the sentinel or
  positions of chunks; \<^verbatim>\<open>list_plans\<close>, \<^verbatim>\<open>list_categories\<close> and \<^verbatim>\<open>get_statistics\<close> when the plan
  names and categories present in the chunks are strings; \<^verbatim>\<open>get_plan_overview\<close> always, with
  a chunk that lacks a field never matching. When no candidate passes the filters, \<^verbatim>\<open>search\<close>
  returns the empty list, not an error.
\<close>

theorem failures_and_totality:
  "(fs dir = None \<longrightarrow> BenefitRetriever enc fs dir = Inl FileNotFoundError)
   \<and> (fs dir = None \<or> (\<exists>d. fs dir = Some d \<and> d ''benefits.index'' = None)
        \<longrightarrow> load_all fs dir = Inl FaissRuntimeError)
   \<and> (\<forall>d i. fs dir = Some d \<and> d ''benefits.index'' = Some (IndexFile i)
            \<and> d ''chunks.pkl'' = None
        \<longrightarrow> load_all fs dir = Inl FileNotFoundError
            \<and> BenefitRetriever enc fs dir = Inl FileNotFoundError)
   \<and> (\<forall>d i cs. fs dir = Some d \<and> d ''benefits.index'' = Some (IndexFile i)
            \<and> d ''chunks.pkl'' = Some (PickleFile cs) \<and> d ''embeddings.npy'' = None
        \<longrightarrow> load_all fs dir = Inl FileNotFoundError
            \<and> BenefitRetriever enc fs dir = Inr \<lparr>index = i, chunks = cs, model = enc\<rparr>)
   \<and> (\<forall>d i cs emb. fs dir = Some d \<and> d ''benefits.index'' = Some (IndexFile i)
            \<and> d ''chunks.pkl'' = Some (PickleFile cs) \<and> d ''embeddings.npy'' = Some (NpyFile emb)
        \<longrightarrow> load_all fs dir = Inr (i, cs, emb)
            \<and> BenefitRetriever enc fs dir = Inr \<lparr>index = i, chunks = cs, model = enc\<rparr>)
   \<and> (\<forall>cands. index r (model r q) (min (top_k * 3) (int (length (chunks r)))) = Inr cands
            \<and> valid_labels (length (chunks r)) cands
        \<longrightarrow> (\<exists>rs. search one_minus r q top_k pf cf = Inr rs
                  \<and> (accepted one_minus (chunks r) pf cf 0 cands = [] \<longrightarrow> rs = []))
            \<and> (\<exists>c. search_with_context one_minus r q top_k = Inr c))
   \<and> (\<forall>cands. index r (model r q) (min (3 * 3) (int (length (chunks r)))) = Inr cands
            \<and> valid_labels (length (chunks r)) cands
        \<longrightarrow> (\<exists>m. compare_plans one_minus r q plan_names = Inr (q, m) \<and> dom m = set plan_names))
   \<and> (\<forall>c. get_plan_overview r p = Some c
        \<longrightarrow> c \<in> set (chunks r) \<and> c ''plan_name'' = Some (PStr p)
            \<and> c ''type'' = Some (PStr ''overview''))
   \<and> (list_all is_str (present ''plan_name'' (chunks r)) \<longrightarrow> (\<exists>ps. list_plans r = Inr ps))
   \<and> (list_all is_str (present ''category'' (chunks r))
        \<longrightarrow> (\<exists>cats. list_categories r = Inr cats))
   \<and> (list_all is_str (present ''plan_name'' (chunks r))
        \<and> list_all is_str (present ''category'' (chunks r))
        \<longrightarrow> (\<exists>st. get_statistics r = Inr st))"
proof -
  have a: "fs dir = None \<longrightarrow> BenefitRetriever enc fs dir = Inl FileNotFoundError"
    by (simp add: BenefitRetriever_def)
  have b: "fs dir = None \<or> (\<exists>d. fs dir = Some d \<and> d ''benefits.index'' = None)
        \<longrightarrow> load_all fs dir = Inl FaissRuntimeError"
    by (auto simp: load_all_def read_index_def)
  have c: "\<forall>d i. fs dir = Some d \<and> d ''benefits.index'' = Some (IndexFile i)
            \<and> d ''chunks.pkl'' = None
        \<longrightarrow> load_all fs dir = Inl FileNotFoundError
            \<and> BenefitRetriever enc fs dir = Inl FileNotFoundError"
    by (auto simp: load_all_def BenefitRetriever_def read_index_def read_chunks_def)
  have d: "\<forall>d i cs. fs dir = Some d \<and> d ''benefits.index'' = Some (IndexFile i)
            \<and> d ''chunks.pkl'' = Some (PickleFile cs) \<and> d ''embeddings.npy'' = None
        \<longrightarrow> load_all fs dir = Inl FileNotFoundError
            \<and> BenefitRetriever enc fs dir = Inr \<lparr>index = i, chunks = cs, model = enc\<rparr>"
    by (auto simp: load_all_def BenefitRetriever_def read_index_def read_chunks_def
        read_embeddings_def)
  have e: "\<forall>d i cs emb. fs dir = Some d \<and> d ''benefits.index'' = Some (IndexFile i)
            \<and> d ''chunks.pkl'' = Some (PickleFile cs) \<and> d ''embeddings.npy'' = Some (NpyFile emb)
        \<longrightarrow> load_all fs dir = Inr (i, cs, emb)
            \<and> BenefitRetriever enc fs dir = Inr \<lparr>index = i, chunks = cs, model = enc\<rparr>"
    by (auto simp: load_all_def BenefitRetriever_def read_index_def read_chunks_def
        read_embeddings_def)
  have f: "\<forall>cands. index r (model r q) (min (top_k * 3) (int (length (chunks r)))) = Inr cands
            \<and> valid_labels (length (chunks r)) cands
        \<longrightarrow> (\<exists>rs. search one_minus r q top_k pf cf = Inr rs
                  \<and> (accepted one_minus (chunks r) pf cf 0 cands = [] \<longrightarrow> rs = []))
            \<and> (\<exists>c. search_with_context one_minus r q top_k = Inr c)"
  proof (intro allI impI)
    fix cands
    assume "index r (model r q) (min (top_k * 3) (int (length (chunks r)))) = Inr cands
            \<and> valid_labels (length (chunks r)) cands"
    then have i: "index r (model r q) (min (top_k * 3) (int (length (chunks r)))) = Inr cands"
      and v: "valid_labels (length (chunks r)) cands" by simp_all
    from search_total[OF i v, of one_minus pf cf]
    have 1: "\<exists>rs. search one_minus r q top_k pf cf = Inr rs
                  \<and> (accepted one_minus (chunks r) pf cf 0 cands = [] \<longrightarrow> rs = [])" by simp
    from search_total[OF i v, of one_minus None None]
    have 2: "\<exists>c. search_with_context one_minus r q top_k = Inr c"
      by (simp add: search_with_context_def Let_def)
    from 1 2 show "(\<exists>rs. search one_minus r q top_k pf cf = Inr rs
                  \<and> (accepted one_minus (chunks r) pf cf 0 cands = [] \<longrightarrow> rs = []))
            \<and> (\<exists>c. search_with_context one_minus r q top_k = Inr c)" by (rule conjI)
  qed
  have g: "\<forall>cands. index r (model r q) (min (3 * 3) (int (length (chunks r)))) = Inr cands
            \<and> valid_labels (length (chunks r)) cands
        \<longrightarrow> (\<exists>m. compare_plans one_minus r q plan_names = Inr (q, m) \<and> dom m = set plan_names)"
  proof (intro allI impI)
    fix cands
    assume "index r (model r q) (min (3 * 3) (int (length (chunks r)))) = Inr cands
            \<and> valid_labels (length (chunks r)) cands"
    then have i: "index r (model r q) (min (3 * 3) (int (length (chunks r)))) = Inr cands"
      and v: "valid_labels (length (chunks r)) cands" by simp_all
    from compare_loop_total[OF i v, of one_minus plan_names Map.empty] obtain m where
      "compare_loop one_minus r q plan_names Map.empty = Inr m" "dom m = set plan_names" by auto
    then show "\<exists>m. compare_plans one_minus r q plan_names = Inr (q, m) \<and> dom m = set plan_names"
      by (simp add: compare_plans_def)
  qed
  have h: "\<forall>c. get_plan_overview r p = Some c
        \<longrightarrow> c \<in> set (chunks r) \<and> c ''plan_name'' = Some (PStr p)
            \<and> c ''type'' = Some (PStr ''overview'')"
    by (auto simp: get_plan_overview_def dest: find_overview)
  have i: "list_all is_str (present ''plan_name'' (chunks r)) \<longrightarrow> (\<exists>ps. list_plans r = Inr ps)"
    using py_sorted_strings by (simp add: list_plans_def)
  have j: "list_all is_str (present ''category'' (chunks r))
        \<longrightarrow> (\<exists>cats. list_categories r = Inr cats)"
    using py_sorted_strings by (simp add: list_categories_def)
  have k: "list_all is_str (present ''plan_name'' (chunks r))
        \<and> list_all is_str (present ''category'' (chunks r))
        \<longrightarrow> (\<exists>st. get_statistics r = Inr st)"
  proof
    assume "list_all is_str (present ''plan_name'' (chunks r))
        \<and> list_all is_str (present ''category'' (chunks r))"
    with i j obtain ps cats where "list_plans r = Inr ps" "list_categories r = Inr cats"
      by blast
    then show "\<exists>st. get_statistics r = Inr st" by (simp add: get_statistics_def)
  qed
  show ?thesis
    by (intro conjI) (fact a, fact b, fact c, fact d, fact e, fact f, fact g, fact h, fact i,
        fact j, fact k)
qed

theorem failures_and_totality_witness:
  "BenefitRetriever (\<lambda>q. []) Map.empty ''data/index'' = Inl FileNotFoundError
   \<and> index demo (model demo ''q'') (min (1 * 3) (int (length (chunks demo))))
       = Inr [(1/8, 1), (3/8, 0)]
   \<and> valid_labels (length (chunks demo)) [(1/8, 1), (3/8, 0)]
   \<and> accepted exact (chunks demo) (Some ''Z'') None 0 [(1/8, 1), (3/8, 0)] = []
   \<and> search exact demo ''q'' 1 (Some ''Z'') None = Inr []
   \<and> list_all is_str (present ''plan_name'' (chunks demo))
   \<and> (\<exists>ps. list_plans demo = Inr ps)"
proof -
  have h1: "index demo (model demo ''q'') (min (1 * 3) (int (length (chunks demo))))
       = Inr [(1/8, 1), (3/8, 0)]"
    by (simp add: demo_def demo_index_def)
  have h2: "valid_labels (length (chunks demo)) [(1/8, 1), (3/8, 0)]"
    by (simp add: valid_labels_def demo_def)
  have h3: "accepted exact (chunks demo) (Some ''Z'') None 0 [(1/8, 1), (3/8, 0)] = []"
    by (simp add: demo_def getitem_def filtered_out_def chunk_a_def chunk_b_def)
  have h4: "list_all is_str (present ''plan_name'' (chunks demo))"
    by (simp add: demo_def present_def chunk_a_def chunk_b_def is_str_def)
  note t = failures_and_totality[of Map.empty "''data/index''" "\<lambda>q. []" demo "''q''" 1
      exact "Some ''Z''" None "[]" "''Z''"]
  note t1 = t[THEN conjunct1]
  note t6 = t[THEN conjunct2, THEN conjunct2, THEN conjunct2, THEN conjunct2, THEN conjunct2,
      THEN conjunct1]
  note t9 = t[THEN conjunct2, THEN conjunct2, THEN conjunct2, THEN conjunct2, THEN conjunct2,
      THEN conjunct2, THEN conjunct2, THEN conjunct2, THEN conjunct1]
  from t1 have 1: "BenefitRetriever (\<lambda>q. []) Map.empty ''data/index'' = Inl FileNotFoundError"
    by simp
  from t6 h1 h2 h3 have 2: "search exact demo ''q'' 1 (Some ''Z'') None = Inr []" by blast
  from t9 h4 have 3: "\<exists>ps. list_plans demo = Inr ps" by blast
  from 1 h1 h2 h3 2 h4 3 show ?thesis by simp
qed

text \<open>
  Claim C7 fails as stated: \<^verbatim>\<open>load_all\<close> succeeds on a location without its metadata file, and
  over the half-saved location the construction succeeds and \<^verbatim>\<open>search\<close> raises IndexError, the
  new index naming a chunk that the previous chunk list does not have.
\<close>

theorem incomplete_unit_counterexample:
  "no_metadata_directory ''metadata.json'' = None
   \<and> load_all no_metadata ''data/index'' = Inr (demo_index, [chunk_a, chunk_b], two_vectors)
   \<and> BenefitRetriever (\<lambda>q. []) half_saved ''data/index'' = Inr stale
   \<and> search exact stale ''q'' 1 None None = Inl IndexError"
  by (simp add: no_metadata_directory_def no_metadata_def load_all_def read_index_def
      read_chunks_def read_embeddings_def BenefitRetriever_def half_saved_def old_directory_def
      stale_def search_def demo_index_def getitem_def)

end
